theory Spec2Isabelle
  imports Main
begin

section \<open>Python strings\<close>

text \<open>
  A Python \<open>str\<close> is modelled as a \<open>string\<close>, each \<open>char\<close> standing for the code point
  of the same number (0 to 255). The functions below are the methods of \<open>str\<close> that
  \<open>solution_exporter.py\<close> calls, restricted to that range of code points.
\<close>

definition isspace :: "char \<Rightarrow> bool" where
  \<comment> \<open>the code points below 256 that \<open>str.isspace\<close> accepts\<close>
  "isspace c = (c \<in> set [CHR 0x09, CHR 0x0A, CHR 0x0B, CHR 0x0C, CHR 0x0D,
                           CHR 0x1C, CHR 0x1D, CHR 0x1E, CHR 0x1F, CHR 0x20,
                           CHR 0x85, CHR 0xA0])"

definition strip :: "string \<Rightarrow> string" where
  \<comment> \<open>\<open>s.strip()\<close>\<close>
  "strip s = rev (dropWhile isspace (rev (dropWhile isspace s)))"

fun split_ws_from :: "string \<Rightarrow> string \<Rightarrow> string list" where
  "split_ws_from cur [] = (if cur = [] then [] else [cur])"
| "split_ws_from cur (c # cs) =
     (if isspace c then (if cur = [] then split_ws_from [] cs else cur # split_ws_from [] cs)
      else split_ws_from (cur @ [c]) cs)"

definition split_ws :: "string \<Rightarrow> string list" where
  \<comment> \<open>\<open>s.split()\<close>: the maximal runs of non-whitespace characters\<close>
  "split_ws s = split_ws_from [] s"

fun split_on_from :: "char \<Rightarrow> string \<Rightarrow> string \<Rightarrow> string list" where
  "split_on_from d cur [] = [cur]"
| "split_on_from d cur (c # cs) =
     (if c = d then cur # split_on_from d [] cs else split_on_from d (cur @ [c]) cs)"

definition split_lines :: "string \<Rightarrow> string list" where
  \<comment> \<open>\<open>s.split('\n')\<close>: empty pieces are kept, and the empty string gives one empty piece\<close>
  "split_lines s = split_on_from (CHR 0x0A) [] s"

definition startswith :: "string \<Rightarrow> string \<Rightarrow> bool" where
  \<comment> \<open>\<open>s.startswith(p)\<close>\<close>
  "startswith s p = (take (length p) s = p)"

fun contains :: "string \<Rightarrow> string \<Rightarrow> bool" where
  \<comment> \<open>\<open>sub in s\<close>\<close>
  "contains sub [] = (sub = [])"
| "contains sub (c # cs) = (startswith (c # cs) sub \<or> contains sub cs)"

definition lower_char :: "char \<Rightarrow> char" where
  \<comment> \<open>A to Z, and the upper-case letters of Latin-1 (0xC0 to 0xDE without 0xD7)\<close>
  "lower_char c =
     (let n = (of_char c :: nat)
      in if (65 \<le> n \<and> n \<le> 90) \<or> (192 \<le> n \<and> n \<le> 222 \<and> n \<noteq> 215)
         then char_of (n + 32) else c)"

definition lower :: "string \<Rightarrow> string" where
  \<comment> \<open>\<open>s.lower()\<close>\<close>
  "lower s = map lower_char s"

fun join :: "string \<Rightarrow> string list \<Rightarrow> string" where
  \<comment> \<open>\<open>sep.join(xs)\<close>\<close>
  "join sep [] = []"
| "join sep [x] = x"
| "join sep (x # y # ys) = x @ sep @ join sep (y # ys)"

section \<open>\<open>list_solutions\<close>: parsing and display\<close>

text \<open>The dictionaries \<open>{'unique_name': ..., 'raw_line': ...}\<close> that \<open>list_solutions\<close> builds.\<close>

record solution =
  unique_name :: string
  raw_line :: string

definition skip_line :: "string \<Rightarrow> bool" where
  \<comment> \<open>\<open>'---' in line or 'Unique Name' in line or not line.strip()\<close>\<close>
  "skip_line line =
     (contains ''---'' line \<or> contains ''Unique Name'' line \<or> strip line = [])"

fun parse_lines :: "string list \<Rightarrow> solution list" where
  \<comment> \<open>the loop \<open>for line in lines\<close>, appending to \<open>solutions\<close>\<close>
  "parse_lines [] = []"
| "parse_lines (line # rest) =
     (if skip_line line then parse_lines rest
      else (case split_ws line of
              [] \<Rightarrow> parse_lines rest
            | p # ps \<Rightarrow>
                if \<not> startswith p ''-''
                then \<lparr>unique_name = p, raw_line = line\<rparr> # parse_lines rest
                else parse_lines rest))"

definition parse_solutions :: "string \<Rightarrow> solution list" where
  \<comment> \<open>\<open>solutions = []; if result.stdout: lines = result.stdout.strip().split('\n'); ...\<close>\<close>
  "parse_solutions out = (if out = [] then [] else parse_lines (split_lines (strip out)))"

text \<open>
  The columns printed for one row of the table. The local variable \<open>managed\<close> is not
  printed. It is assigned only for a row of at least three tokens (the empty string when
  no managed flag was recognised) and keeps its value from one row to the next, so the
  loop body takes its value before the row and gives its value after the row: \<open>None\<close>
  while the variable is not bound.
\<close>

record display_row =
  row_unique_name :: string
  row_friendly_name :: string
  row_version :: string

definition is_bool_literal :: "string \<Rightarrow> bool" where
  \<comment> \<open>\<open>parts[-1] in ['True', 'False']\<close>\<close>
  "is_bool_literal t = (t \<in> set [''True'', ''False''])"

definition columns_of_parts :: "string option \<Rightarrow> string list \<Rightarrow> display_row \<times> string option" where
  \<comment> \<open>the body of the loop \<open>for idx, sol in enumerate(solutions, 1)\<close> up to the truncation;
     \<open>parts[-1]\<close>, \<open>parts[-2]\<close>, \<open>parts[1:-2]\<close> and \<open>parts[1:-1]\<close> are read only where the
     list has at least three elements, and are written with \<open>last\<close>, \<open>!\<close>, \<open>take\<close> and \<open>drop\<close>.
     The \<open>else\<close> branch assigns \<open>friendly_name\<close> and \<open>version\<close> and leaves \<open>managed\<close> alone.\<close>
  "columns_of_parts managed_before parts =
     (let uname = (if length parts > 0 then hd parts else [])
      in if length parts \<ge> 3
         then (let version = (if is_bool_literal (last parts)
                              then parts ! (length parts - 2) else last parts);
                   managed = (if is_bool_literal (last parts) then last parts else []);
                   friendly_parts = (if managed \<noteq> [] then drop 1 (take (length parts - 2) parts)
                                     else drop 1 (take (length parts - 1) parts))
               in (\<lparr>row_unique_name = uname,
                    row_friendly_name = join '' '' friendly_parts,
                    row_version = version\<rparr>,
                   Some managed))
         else (\<lparr>row_unique_name = uname,
                row_friendly_name = [],
                row_version = []\<rparr>,
               managed_before))"

definition truncate_friendly :: "string \<Rightarrow> string" where
  \<comment> \<open>\<open>if len(friendly_name) > 24: friendly_name = friendly_name[:21] + "..."\<close>\<close>
  "truncate_friendly f = (if length f > 24 then take 21 f @ ''...'' else f)"

definition display_columns :: "string option \<Rightarrow> string \<Rightarrow> display_row \<times> string option" where
  \<comment> \<open>the columns printed for \<open>sol['raw_line']\<close>, and \<open>managed\<close> after the row\<close>
  "display_columns managed_before raw =
     (let c = columns_of_parts managed_before (split_ws raw)
      in ((fst c)\<lparr>row_friendly_name := truncate_friendly (row_friendly_name (fst c))\<rparr>,
          snd c))"

section \<open>Integers and timestamps as text\<close>

definition is_digit :: "char \<Rightarrow> bool" where
  "is_digit c = (c \<in> set ''0123456789'')"

definition digit_val :: "char \<Rightarrow> nat" where
  "digit_val c = of_char c - 48"

fun parse_digits :: "nat \<Rightarrow> string \<Rightarrow> nat option" where
  \<comment> \<open>after a digit: more digits, each optionally preceded by one underscore\<close>
  "parse_digits acc [] = Some acc"
| "parse_digits acc [c] = (if is_digit c then Some (10 * acc + digit_val c) else None)"
| "parse_digits acc (c # d # ds) =
     (if is_digit c then parse_digits (10 * acc + digit_val c) (d # ds)
      else if c = CHR ''_'' \<and> is_digit d then parse_digits (10 * acc + digit_val d) ds
      else None)"

definition parse_unsigned :: "string \<Rightarrow> nat option" where
  "parse_unsigned s =
     (case s of [] \<Rightarrow> None
      | c # cs \<Rightarrow> if is_digit c then parse_digits (digit_val c) cs else None)"

definition int_max_str_digits :: nat where
  \<comment> \<open>the interpreter's limit on the digits of a string that \<open>int\<close> converts, at its default;
     the program does not change it\<close>
  "int_max_str_digits = 4300"

definition py_int :: "string \<Rightarrow> int option" where
  \<comment> \<open>\<open>int(s)\<close> on a string: \<open>None\<close> stands for \<open>ValueError\<close>. Surrounding whitespace is
     dropped, one sign is allowed, then decimal digits with single underscores between them.
     A string of more digits than the limit is refused; the sign and the underscores do
     not count.\<close>
  "py_int s =
     (case strip s of [] \<Rightarrow> None
      | c # cs \<Rightarrow>
          if length (filter is_digit (c # cs)) > int_max_str_digits then None
          else if c = CHR ''-'' then map_option (\<lambda>n. - int n) (parse_unsigned cs)
          else if c = CHR ''+'' then map_option int (parse_unsigned cs)
          else map_option int (parse_unsigned (c # cs)))"

definition digit_char :: "nat \<Rightarrow> char" where
  \<comment> \<open>the character of a digit below ten\<close>
  "digit_char d = ''0123456789'' ! d"

function str_nat :: "nat \<Rightarrow> string" where
  \<comment> \<open>the decimal digits of a number\<close>
  "str_nat n = (if n < 10 then [digit_char n] else str_nat (n div 10) @ [digit_char (n mod 10)])"
  by pat_completeness auto
termination
  by (relation "measure id") auto

declare str_nat.simps [simp del]

definition zero_pad :: "nat \<Rightarrow> nat \<Rightarrow> string" where
  \<comment> \<open>a number in at least \<open>w\<close> digits, zeros in front\<close>
  "zero_pad w n = replicate (w - length (str_nat n)) (CHR ''0'') @ str_nat n"

record datetime =
  year :: nat
  month :: nat
  day :: nat
  hour :: nat
  minute :: nat
  second :: nat

definition valid_datetime :: "datetime \<Rightarrow> bool" where
  \<comment> \<open>the ranges of the fields of a \<open>datetime\<close> object\<close>
  "valid_datetime t =
     (1 \<le> year t \<and> year t \<le> 9999 \<and> 1 \<le> month t \<and> month t \<le> 12 \<and>
      1 \<le> day t \<and> day t \<le> 31 \<and> hour t \<le> 23 \<and> minute t \<le> 59 \<and> second t \<le> 59)"

definition strftime :: "datetime \<Rightarrow> string" where
  \<comment> \<open>\<open>strftime("%Y%m%d_%H%M%S")\<close>, the year in four digits as the library documents it\<close>
  "strftime t =
     zero_pad 4 (year t) @ zero_pad 2 (month t) @ zero_pad 2 (day t) @ ''_'' @
     zero_pad 2 (hour t) @ zero_pad 2 (minute t) @ zero_pad 2 (second t)"

section \<open>Paths and the file system\<close>

text \<open>
  \<open>pathlib.Path\<close> in its POSIX flavour: a path is its anchor (empty, \<open>/\<close> or \<open>//\<close>) and its
  names, with empty names and \<open>.\<close> dropped when the string is read.
\<close>

record pure_path =
  anchor :: string
  names :: "string list"

definition Path :: "string \<Rightarrow> pure_path" where
  "Path s =
     (let k = length (takeWhile (\<lambda>c. c = CHR ''/'') s)
      in \<lparr>anchor = (if k = 0 then [] else if k = 2 then ''//'' else ''/''),
          names = filter (\<lambda>n. n \<noteq> [] \<and> n \<noteq> ''.'') (split_on_from (CHR ''/'') [] s)\<rparr>)"

definition joinpath :: "pure_path \<Rightarrow> string \<Rightarrow> pure_path" where
  \<comment> \<open>\<open>p / s\<close>: an anchored right-hand side replaces the left-hand side\<close>
  "joinpath p s =
     (let q = Path s
      in if anchor q \<noteq> [] then q else \<lparr>anchor = anchor p, names = names p @ names q\<rparr>)"

definition str_path :: "pure_path \<Rightarrow> string" where
  \<comment> \<open>\<open>str(p)\<close>\<close>
  "str_path p =
     (if anchor p = [] \<and> names p = [] then ''.'' else anchor p @ join ''/'' (names p))"

definition parent :: "pure_path \<Rightarrow> pure_path" where
  \<comment> \<open>\<open>p.parent\<close>\<close>
  "parent p = (if names p = [] then p else p\<lparr>names := butlast (names p)\<rparr>)"

text \<open>
  The file system: a node for every location (the names from the root down), and the
  current directory. Permissions and symbolic links are not modelled.
\<close>

type_synonym location = "string list"

datatype node = Dir | File nat

record filesystem =
  nodes :: "location \<rightharpoonup> node"
  cwd :: location

datatype os_error = FileNotFoundError | FileExistsError | NotADirectoryError | PermissionError

fun walk :: "filesystem \<Rightarrow> location \<Rightarrow> string list \<Rightarrow> os_error + location" where
  \<comment> \<open>following names from a location; every location left behind must be a directory\<close>
  "walk fs cur [] = Inr cur"
| "walk fs cur (n # ns) =
     (case nodes fs cur of
        Some Dir \<Rightarrow> walk fs (if n = ''..'' then butlast cur else cur @ [n]) ns
      | Some (File _) \<Rightarrow> Inl NotADirectoryError
      | None \<Rightarrow> Inl FileNotFoundError)"

definition start_of :: "filesystem \<Rightarrow> pure_path \<Rightarrow> location" where
  "start_of fs p = (if anchor p = [] then cwd fs else [])"

definition lookup :: "filesystem \<Rightarrow> pure_path \<Rightarrow> node option" where
  "lookup fs p =
     (case walk fs (start_of fs p) (names p) of Inl _ \<Rightarrow> None | Inr loc \<Rightarrow> nodes fs loc)"

definition path_exists :: "filesystem \<Rightarrow> pure_path \<Rightarrow> bool" where
  \<comment> \<open>\<open>p.exists()\<close>\<close>
  "path_exists fs p = (lookup fs p \<noteq> None)"

definition is_dir :: "filesystem \<Rightarrow> pure_path \<Rightarrow> bool" where
  \<comment> \<open>\<open>p.is_dir()\<close>\<close>
  "is_dir fs p = (lookup fs p = Some Dir)"

definition st_size :: "filesystem \<Rightarrow> pure_path \<Rightarrow> nat" where
  \<comment> \<open>\<open>p.stat().st_size\<close> of an existing path; the size of a directory is not modelled\<close>
  "st_size fs p = (case lookup fs p of Some (File n) \<Rightarrow> n | _ \<Rightarrow> 0)"

definition os_mkdir :: "filesystem \<Rightarrow> pure_path \<Rightarrow> os_error + filesystem" where
  \<comment> \<open>\<open>os.mkdir(p)\<close>\<close>
  "os_mkdir fs p =
     (if names p = []
      then (if nodes fs (start_of fs p) = None then Inl FileNotFoundError else Inl FileExistsError)
      else (case walk fs (start_of fs p) (butlast (names p)) of
              Inl e \<Rightarrow> Inl e
            | Inr par \<Rightarrow>
                (case nodes fs par of
                   None \<Rightarrow> Inl FileNotFoundError
                 | Some (File _) \<Rightarrow> Inl NotADirectoryError
                 | Some Dir \<Rightarrow>
                     if last (names p) = ''..'' then Inl FileExistsError
                     else if nodes fs (par @ [last (names p)]) \<noteq> None then Inl FileExistsError
                     else Inr (fs\<lparr>nodes := (nodes fs)(par @ [last (names p)] \<mapsto> Dir)\<rparr>))))"

function mkdir :: "filesystem \<Rightarrow> pure_path \<Rightarrow> bool \<Rightarrow> bool \<Rightarrow> (os_error + unit) \<times> filesystem" where
  \<comment> \<open>\<open>Path.mkdir(parents=..., exist_ok=...)\<close>, as the library writes it: try \<open>os.mkdir\<close>;
     on \<open>FileNotFoundError\<close> with \<open>parents\<close> make the parent, then this directory without
     \<open>parents\<close>; any other error is swallowed when \<open>exist_ok\<close> and the path is a directory.
     The file system is returned with the error too: what was made stays made.\<close>
  "mkdir fs p parents exist_ok =
     (case os_mkdir fs p of
        Inr fs' \<Rightarrow> (Inr (), fs')
      | Inl e \<Rightarrow>
          if e = FileNotFoundError
          then (if \<not> parents \<or> parent p = p then (Inl e, fs)
                else (let r = mkdir fs (parent p) True True
                      in case fst r of
                           Inl e' \<Rightarrow> (Inl e', snd r)
                         | Inr _ \<Rightarrow> mkdir (snd r) p False exist_ok))
          else (if \<not> exist_ok \<or> \<not> is_dir fs p then (Inl e, fs) else (Inr (), fs)))"
  by pat_completeness auto
termination
  by (relation "measure (\<lambda>(fs, p, parents, exist_ok). 2 * length (names p) + (if parents then 1 else 0))")
     (auto simp: parent_def split: if_splits)

declare mkdir.simps [simp del]

section \<open>The program's world\<close>

text \<open>
  What the program prints, one constructor for each message (its fixed text and glyphs
  left out, its variable parts kept). The spinner's frames are not modelled; the line it
  prints when stopped is, without the elapsed time. The file size is kept in bytes.
\<close>

datatype prompt = UseExistingProfile | EnvironmentUrl | SelectSolution | ExportAnother

datatype msg =
    InstallInstructions
  | CheckingForPac | FoundPacVersion string | FoundPac | PacCheckFailed
  | CheckingAuth | FoundProfile | CurrentProfiles string | NoActiveProfile
  | UrlRequired | OpeningBrowser string | AuthSuccessful | AuthFailed
  | FetchingSolutions | FetchFailed | FetchError string | NoSolutionsFound
  | TableHeader | TableRow nat string string string | TableFooter nat
  | ExportingSolution string string | SpinnerStopped string bool
  | FileInfo string nat | FileNotFoundWarning string | ExportOutput string
  | ExportFailed string | ExportError string
  | Banner | AuthRequired | NoSolutionsAvailable | SelectionRule | Goodbye
  | InvalidSelection nat | NameRequired | UsingDirectName string | ExportComplete
  | Prompt prompt

datatype exn = SystemExit int | EOFError | OSError os_error

text \<open>\<open>subprocess.CompletedProcess\<close>; without \<open>capture_output\<close> both texts are empty.\<close>

record completed_process =
  returncode :: int
  stdout :: string
  stderr :: string

text \<open>
  One run of a subprocess either fails to start or completes, leaving a result and a file
  system. The world holds what the program can change or consume: the lines still to be
  read from standard input, what was printed, the file system, the argument vectors of
  the subprocesses run so far and the number of clock readings. The environment is what
  the program cannot control: how the external tool answers (given the earlier runs, the
  file system and the argument vector) and what the clock shows at each reading. A
  subprocess is taken not to read from the program's standard input.
\<close>

datatype pac_outcome = SpawnError os_error | Completed completed_process filesystem

record world =
  stdin :: "string list"
  printed :: "msg list"
  fs :: filesystem
  invoked :: "string list list"
  clock_reads :: nat

record environment =
  pac :: "string list list \<Rightarrow> filesystem \<Rightarrow> string list \<Rightarrow> pac_outcome"
  clock :: "nat \<Rightarrow> datetime"

type_synonym 'a io = "world \<Rightarrow> (exn + 'a) \<times> world"

definition return :: "'a \<Rightarrow> 'a io" where
  "return x w = (Inr x, w)"

definition raise :: "exn \<Rightarrow> 'a io" where
  "raise e w = (Inl e, w)"

definition seq :: "'a io \<Rightarrow> ('a \<Rightarrow> 'b io) \<Rightarrow> 'b io" where
  \<comment> \<open>one statement after another; an exception skips what follows\<close>
  "seq m f w = (case m w of (Inl e, w') \<Rightarrow> (Inl e, w') | (Inr x, w') \<Rightarrow> f x w')"

definition print :: "msg \<Rightarrow> unit io" where
  "print m w = (Inr (), w\<lparr>printed := printed w @ [m]\<rparr>)"

definition print_if :: "bool \<Rightarrow> msg \<Rightarrow> unit io" where
  "print_if b m = (if b then print m else return ())"

definition input_line :: "prompt \<Rightarrow> string io" where
  \<comment> \<open>\<open>input(prompt)\<close>: \<open>EOFError\<close> when standard input has ended\<close>
  "input_line q w =
     (case stdin w of
        [] \<Rightarrow> (Inl EOFError, w\<lparr>printed := printed w @ [Prompt q]\<rparr>)
      | l # ls \<Rightarrow> (Inr l, w\<lparr>printed := printed w @ [Prompt q], stdin := ls\<rparr>))"

definition now :: "environment \<Rightarrow> datetime io" where
  \<comment> \<open>\<open>datetime.now()\<close>\<close>
  "now env w = (Inr (clock env (clock_reads w)), w\<lparr>clock_reads := Suc (clock_reads w)\<rparr>)"

section \<open>\<open>run_pac_command\<close> and \<open>check_pac_installed\<close>\<close>

definition run_pac_command :: "environment \<Rightarrow> string list \<Rightarrow> bool \<Rightarrow> completed_process io" where
  "run_pac_command env args capture_output w =
     (let cmd = ''pac'' # args;
          w1 = w\<lparr>invoked := invoked w @ [cmd]\<rparr>
      in case pac env (invoked w) (fs w) cmd of
           Completed r fs' \<Rightarrow>
             (Inr (if capture_output then r else r\<lparr>stdout := [], stderr := []\<rparr>),
              w1\<lparr>fs := fs'\<rparr>)
         | SpawnError e \<Rightarrow>
             if e = FileNotFoundError
             then seq (print InstallInstructions) (\<lambda>_. raise (SystemExit 1)) w1
             else raise (OSError e) w1)"

fun first_version_line :: "string list \<Rightarrow> string option" where
  \<comment> \<open>the first line that contains \<open>Version:\<close>, stripped\<close>
  "first_version_line [] = None"
| "first_version_line (line # rest) =
     (if contains ''Version:'' line then Some (strip line) else first_version_line rest)"

definition check_pac_installed :: "environment \<Rightarrow> bool io" where
  "check_pac_installed env =
     seq (print CheckingForPac) (\<lambda>_.
     seq (run_pac_command env [''help''] True) (\<lambda>result.
       let output = (if stderr result \<noteq> [] then stdout result @ stderr result else stdout result)
       in if contains ''Microsoft PowerPlatform CLI'' output \<or> contains ''Version:'' output
          then (case first_version_line (split_lines output) of
                  Some version \<Rightarrow> seq (print (FoundPacVersion version)) (\<lambda>_. return True)
                | None \<Rightarrow> seq (print FoundPac) (\<lambda>_. return True))
          else seq (print PacCheckFailed) (\<lambda>_. return False)))"

section \<open>\<open>ensure_authenticated\<close>\<close>

fun scan_profiles :: "string list \<Rightarrow> bool" where
  \<comment> \<open>the loop over the lines of the profile listing, left at the first hit\<close>
  "scan_profiles [] = False"
| "scan_profiles (line # rest) =
     (if contains ''---'' line \<or> contains ''Index'' line \<or> strip line = [] then scan_profiles rest
      else if contains ''http'' (lower line) \<and> contains ''crm'' (lower line) then True
      else scan_profiles rest)"

definition has_active_profile :: "completed_process \<Rightarrow> bool" where
  \<comment> \<open>the value of \<open>has_active\<close> after the check of the profile listing\<close>
  "has_active_profile result =
     (if returncode result = 0 \<and> stdout result \<noteq> []
      then (let output = lower (stdout result)
            in if contains ''active'' output \<or>
                  (contains ''http'' output \<and> \<not> contains ''universal'' (lower output))
               then scan_profiles (split_lines (strip (stdout result)))
               else False)
      else False)"

definition sign_in :: "environment \<Rightarrow> bool io" where
  \<comment> \<open>the rest of \<open>ensure_authenticated\<close>, from "Need to create new auth" on\<close>
  "sign_in env =
     seq (print NoActiveProfile) (\<lambda>_.
     seq (input_line EnvironmentUrl) (\<lambda>line.
       let env_url = strip line
       in if env_url = [] then seq (print UrlRequired) (\<lambda>_. return False)
          else (let env_url = (if \<not> startswith env_url ''http'' then ''https://'' @ env_url
                               else env_url)
                in seq (print (OpeningBrowser env_url)) (\<lambda>_.
                   seq (run_pac_command env [''auth'', ''create'', ''--url'', env_url] False)
                     (\<lambda>auth_result.
                        if returncode auth_result = 0
                        then seq (print AuthSuccessful) (\<lambda>_. return True)
                        else seq (print AuthFailed) (\<lambda>_. return False))))))"

definition ensure_authenticated :: "environment \<Rightarrow> bool io" where
  "ensure_authenticated env =
     seq (print CheckingAuth) (\<lambda>_.
     seq (run_pac_command env [''auth'', ''list''] True) (\<lambda>result.
       if has_active_profile result
       then seq (print FoundProfile) (\<lambda>_.
            seq (print (CurrentProfiles (stdout result))) (\<lambda>_.
            seq (input_line UseExistingProfile) (\<lambda>line.
              let use_existing = lower (strip line)
              in if use_existing \<in> set [[], ''y'', ''yes''] then return True
                 else sign_in env)))
       else sign_in env))"

section \<open>\<open>list_solutions\<close>\<close>

fun print_rows :: "nat \<Rightarrow> string option \<Rightarrow> solution list \<Rightarrow> unit io" where
  \<comment> \<open>\<open>for idx, sol in enumerate(solutions, 1)\<close>, with the value of \<open>managed\<close> carried from
     row to row\<close>
  "print_rows idx managed [] = return ()"
| "print_rows idx managed (sol # rest) =
     (let c = display_columns managed (raw_line sol);
          r = fst c
      in seq (print (TableRow idx (row_unique_name r) (row_friendly_name r) (row_version r)))
           (\<lambda>_. print_rows (Suc idx) (snd c) rest))"

definition list_solutions :: "environment \<Rightarrow> solution list io" where
  "list_solutions env =
     seq (print FetchingSolutions) (\<lambda>_.
     seq (run_pac_command env [''solution'', ''list''] True) (\<lambda>result.
       if returncode result \<noteq> 0
       then seq (print FetchFailed) (\<lambda>_.
            seq (print_if (stderr result \<noteq> []) (FetchError (stderr result))) (\<lambda>_.
            return []))
       else (let solutions = parse_solutions (stdout result)
             in if solutions = [] then seq (print NoSolutionsFound) (\<lambda>_. return [])
                else seq (print TableHeader) (\<lambda>_.
                     seq (print_rows 1 None solutions) (\<lambda>_.
                     seq (print (TableFooter (length solutions))) (\<lambda>_.
                     return solutions))))))"

section \<open>\<open>export_solution\<close>\<close>

definition mkdir_io :: "pure_path \<Rightarrow> bool \<Rightarrow> bool \<Rightarrow> unit io" where
  "mkdir_io p parents exist_ok w =
     (case mkdir (fs w) p parents exist_ok of
        (Inl e, fs') \<Rightarrow> (Inl (OSError e), w\<lparr>fs := fs'\<rparr>)
      | (Inr _, fs') \<Rightarrow> (Inr (), w\<lparr>fs := fs'\<rparr>))"

definition exists_io :: "pure_path \<Rightarrow> bool io" where
  "exists_io p w = (Inr (path_exists (fs w) p), w)"

definition st_size_io :: "pure_path \<Rightarrow> nat io" where
  "st_size_io p w = (Inr (st_size (fs w) p), w)"

definition try_finally :: "'a io \<Rightarrow> ((exn + 'a) \<Rightarrow> unit io) \<Rightarrow> 'a io" where
  \<comment> \<open>\<open>try: ... finally: ...\<close>: the second block runs after the first whatever its outcome,
     which then stands unless the second block raises\<close>
  "try_finally m h w =
     (case m w of
        (r, w1) \<Rightarrow> (case h r w1 of (Inl e, w2) \<Rightarrow> (Inl e, w2) | (Inr _, w2) \<Rightarrow> (r, w2)))"

definition export_filename :: "string \<Rightarrow> datetime \<Rightarrow> string" where
  \<comment> \<open>\<open>f"{solution_name}_{timestamp}.zip"\<close>\<close>
  "export_filename solution_name t = solution_name @ ''_'' @ strftime t @ ''.zip''"

definition export_command :: "string \<Rightarrow> pure_path \<Rightarrow> string list" where
  "export_command solution_name full_path =
     [''solution'', ''export'', ''--name'', solution_name, ''--path'', str_path full_path,
      ''--managed'', ''false'', ''--overwrite'']"

definition spinner_label :: "string \<Rightarrow> string" where
  "spinner_label solution_name = ''Exporting '' @ solution_name"

definition export_solution :: "environment \<Rightarrow> string \<Rightarrow> string \<Rightarrow> bool io" where
  \<comment> \<open>\<open>result\<close> is \<open>None\<close> in the \<open>finally\<close> block exactly when \<open>run_pac_command\<close> raised; the
     exception then goes on, so the test \<open>if result is None\<close> after the block never holds\<close>
  "export_solution env solution_name output_dir =
     (let output_path = Path output_dir
      in seq (mkdir_io output_path True True) (\<lambda>_.
         seq (now env) (\<lambda>t.
           let filename = export_filename solution_name t;
               full_path = joinpath output_path filename
           in seq (print (ExportingSolution solution_name (str_path full_path))) (\<lambda>_.
              seq (try_finally
                     (run_pac_command env (export_command solution_name full_path) True)
                     (\<lambda>r. case r of
                             Inl _ \<Rightarrow> print (SpinnerStopped (spinner_label solution_name) False)
                           | Inr result \<Rightarrow>
                               seq (if returncode result = 0 then exists_io full_path
                                    else return False)
                                 (\<lambda>success.
                                    print (SpinnerStopped (spinner_label solution_name) success))))
                (\<lambda>result.
                   if returncode result = 0
                   then seq (exists_io full_path) (\<lambda>found.
                          if found
                          then seq (st_size_io full_path) (\<lambda>size.
                               seq (print (FileInfo (str_path full_path) size)) (\<lambda>_.
                               return True))
                          else seq (print (FileNotFoundWarning (str_path full_path))) (\<lambda>_.
                               seq (print_if (stdout result \<noteq> []) (ExportOutput (stdout result)))
                                 (\<lambda>_.
                               return False)))
                   else seq (print (ExportFailed solution_name)) (\<lambda>_.
                        seq (print_if (stderr result \<noteq> []) (ExportError (stderr result))) (\<lambda>_.
                        return False)))))))"

definition export_target :: "environment \<Rightarrow> string \<Rightarrow> string \<Rightarrow> world \<Rightarrow> pure_path" where
  \<comment> \<open>the value of \<open>full_path\<close> in the call \<open>export_solution(solution_name, output_dir)\<close>
     made in world \<open>w\<close>\<close>
  "export_target env solution_name output_dir w =
     joinpath (Path output_dir) (export_filename solution_name (clock env (clock_reads w)))"

section \<open>Selection, \<open>main\<close> and \<open>export_another_solution\<close>\<close>

text \<open>
  The block "Validate selection", which \<open>main\<close> and \<open>export_another_solution\<close> both
  contain: the name chosen by its number, the input taken as a name, or one of the two
  failures. What follows a failure differs between the two callers.
\<close>

datatype resolution = Chosen string | Direct string | BadIndex | EmptyName

definition resolve_selection :: "solution list \<Rightarrow> string \<Rightarrow> resolution" where
  "resolve_selection solutions selection =
     (case py_int selection of
        Some idx \<Rightarrow>
          if idx < 1 \<or> idx > int (length solutions) then BadIndex
          else Chosen (unique_name (solutions ! nat (idx - 1)))
      | None \<Rightarrow> if selection = [] then EmptyName else Direct selection)"

definition choose_solution :: "environment \<Rightarrow> string io" where
  \<comment> \<open>\<open>main\<close>, steps 1 to 4: the name of the solution to export\<close>
  "choose_solution env =
     seq (print Banner) (\<lambda>_.
     seq (check_pac_installed env) (\<lambda>installed.
       if \<not> installed then raise (SystemExit 1) else
     seq (ensure_authenticated env) (\<lambda>authenticated.
       if \<not> authenticated then seq (print AuthRequired) (\<lambda>_. raise (SystemExit 1)) else
     seq (list_solutions env) (\<lambda>solutions.
       if solutions = [] then seq (print NoSolutionsAvailable) (\<lambda>_. raise (SystemExit 1)) else
     seq (print SelectionRule) (\<lambda>_.
     seq (input_line SelectSolution) (\<lambda>line.
       let selection = strip line
       in if lower selection = ''q'' then seq (print Goodbye) (\<lambda>_. raise (SystemExit 0))
          else (case resolve_selection solutions selection of
                  BadIndex \<Rightarrow>
                    seq (print (InvalidSelection (length solutions))) (\<lambda>_. raise (SystemExit 1))
                | EmptyName \<Rightarrow> seq (print NameRequired) (\<lambda>_. raise (SystemExit 1))
                | Chosen solution_name \<Rightarrow> return solution_name
                | Direct solution_name \<Rightarrow>
                    seq (print (UsingDirectName solution_name)) (\<lambda>_. return solution_name))))))))"

definition choose_another :: "environment \<Rightarrow> string option io" where
  \<comment> \<open>\<open>export_another_solution\<close> up to the export: \<open>None\<close> where the function returns early\<close>
  "choose_another env =
     seq (list_solutions env) (\<lambda>solutions.
       if solutions = [] then seq (print NoSolutionsAvailable) (\<lambda>_. return None) else
     seq (print SelectionRule) (\<lambda>_.
     seq (input_line SelectSolution) (\<lambda>line.
       let selection = strip line
       in if lower selection = ''q'' then seq (print Goodbye) (\<lambda>_. return None)
          else (case resolve_selection solutions selection of
                  BadIndex \<Rightarrow>
                    seq (print (InvalidSelection (length solutions))) (\<lambda>_. return None)
                | EmptyName \<Rightarrow> seq (print NameRequired) (\<lambda>_. return None)
                | Chosen solution_name \<Rightarrow> return (Some solution_name)
                | Direct solution_name \<Rightarrow>
                    seq (print (UsingDirectName solution_name)) (\<lambda>_.
                    return (Some solution_name))))))"

definition another_round :: "environment \<Rightarrow> bool io" where
  \<comment> \<open>the body of \<open>export_another_solution\<close>; the result says whether it ends by calling
     itself\<close>
  "another_round env =
     seq (choose_another env) (\<lambda>chosen.
       case chosen of
         None \<Rightarrow> return False
       | Some solution_name \<Rightarrow>
           seq (export_solution env solution_name ''./exports'') (\<lambda>success.
             if success
             then seq (print ExportComplete) (\<lambda>_.
                  seq (input_line ExportAnother) (\<lambda>line.
                    let another = lower (strip line)
                    in return (another \<in> set [''y'', ''yes''])))
             else return False))"

text \<open>
  \<open>export_another_solution\<close> calls itself. No step of the program puts a line back on
  standard input, and a round that ends in the call has read the answer to "Export
  another solution?", so the lines still to be read get fewer and the recursion ends.
\<close>

definition stdin_le :: "'a io \<Rightarrow> bool" where
  "stdin_le m = (\<forall>w. length (stdin (snd (m w))) \<le> length (stdin w))"

lemma stdin_le_return: "stdin_le (return x)"
  by (simp add: stdin_le_def return_def)

lemma stdin_le_raise: "stdin_le (raise e)"
  by (simp add: stdin_le_def raise_def)

lemma stdin_le_print: "stdin_le (print m)"
  by (simp add: stdin_le_def print_def)

lemma stdin_le_print_if: "stdin_le (print_if b m)"
  by (simp add: print_if_def stdin_le_print stdin_le_return)

lemma stdin_le_input_line: "stdin_le (input_line q)"
  by (simp add: stdin_le_def input_line_def split: list.splits)

lemma stdin_le_now: "stdin_le (now env)"
  by (simp add: stdin_le_def now_def)

lemma stdin_le_seq:
  assumes "stdin_le m" and "\<And>x. stdin_le (f x)"
  shows "stdin_le (seq m f)"
proof -
  have "length (stdin (snd (seq m f w))) \<le> length (stdin w)" for w
  proof (cases "m w")
    case (Pair r w1)
    from assms(1) have a: "length (stdin (snd (m w))) \<le> length (stdin w)"
      by (simp add: stdin_le_def)
    show ?thesis
    proof (cases r)
      case (Inl e)
      with Pair a show ?thesis by (simp add: seq_def)
    next
      case (Inr x)
      from assms(2) have "length (stdin (snd (f x w1))) \<le> length (stdin w1)"
        by (simp add: stdin_le_def)
      with Pair Inr a show ?thesis by (simp add: seq_def)
    qed
  qed
  then show ?thesis by (simp add: stdin_le_def)
qed

lemma stdin_le_try_finally:
  assumes "stdin_le m" and "\<And>r. stdin_le (h r)"
  shows "stdin_le (try_finally m h)"
proof -
  have "length (stdin (snd (try_finally m h w))) \<le> length (stdin w)" for w
  proof (cases "m w")
    case (Pair r w1)
    from assms(1) have a: "length (stdin (snd (m w))) \<le> length (stdin w)"
      by (simp add: stdin_le_def)
    from assms(2) have b: "length (stdin (snd (h r w1))) \<le> length (stdin w1)"
      by (simp add: stdin_le_def)
    from Pair a b show ?thesis
      by (cases "h r w1") (auto simp: try_finally_def split: sum.splits)
  qed
  then show ?thesis by (simp add: stdin_le_def)
qed

lemma stdin_le_run_pac_command: "stdin_le (run_pac_command env args c)"
  by (simp add: stdin_le_def run_pac_command_def Let_def seq_def print_def raise_def
      split: pac_outcome.splits)

lemma stdin_le_mkdir_io: "stdin_le (mkdir_io p a b)"
  by (simp add: stdin_le_def mkdir_io_def split: prod.splits sum.splits)

lemma stdin_le_exists_io: "stdin_le (exists_io p)"
  by (simp add: stdin_le_def exists_io_def)

lemma stdin_le_st_size_io: "stdin_le (st_size_io p)"
  by (simp add: stdin_le_def st_size_io_def)

lemmas stdin_le_intros = stdin_le_return stdin_le_raise stdin_le_print stdin_le_print_if
  stdin_le_input_line stdin_le_now stdin_le_seq stdin_le_try_finally stdin_le_run_pac_command
  stdin_le_mkdir_io stdin_le_exists_io stdin_le_st_size_io

lemma stdin_le_if: "stdin_le a \<Longrightarrow> stdin_le b \<Longrightarrow> stdin_le (if c then a else b)"
  by simp

lemma stdin_le_export_solution: "stdin_le (export_solution env n d)"
  unfolding export_solution_def Let_def
  by (auto intro!: stdin_le_intros stdin_le_if split: sum.splits)

lemma stdin_le_print_rows: "stdin_le (print_rows i m sols)"
  by (induction sols arbitrary: i m) (auto simp: Let_def intro!: stdin_le_intros)

lemma stdin_le_list_solutions: "stdin_le (list_solutions env)"
  unfolding list_solutions_def Let_def
  by (auto intro!: stdin_le_intros stdin_le_if stdin_le_print_rows)

lemma stdin_le_choose_another: "stdin_le (choose_another env)"
  unfolding choose_another_def Let_def
  by (auto intro!: stdin_le_intros stdin_le_if stdin_le_list_solutions split: resolution.splits)

lemma input_line_consumes:
  "input_line q w = (Inr l, w') \<Longrightarrow> length (stdin w') < length (stdin w)"
  by (auto simp: input_line_def split: list.splits)

lemma another_round_consumes:
  assumes "another_round env w = (Inr True, w')"
  shows "length (stdin w') < length (stdin w)"
proof -
  from assms obtain name w1 where c: "choose_another env w = (Inr (Some name), w1)"
    and r1: "seq (export_solution env name ''./exports'') (\<lambda>success.
             if success
             then seq (print ExportComplete) (\<lambda>_.
                  seq (input_line ExportAnother) (\<lambda>line.
                    let another = lower (strip line)
                    in return (another \<in> set [''y'', ''yes''])))
             else return False) w1 = (Inr True, w')"
    by (auto simp: another_round_def seq_def return_def split: prod.splits sum.splits option.splits)
  from r1 obtain w2 where e: "export_solution env name ''./exports'' w1 = (Inr True, w2)"
    and r2: "seq (print ExportComplete) (\<lambda>_.
                  seq (input_line ExportAnother) (\<lambda>line.
                    let another = lower (strip line)
                    in return (another \<in> set [''y'', ''yes'']))) w2 = (Inr True, w')"
    by (auto simp: seq_def[of "export_solution env name ''./exports''"] return_def split: prod.splits sum.splits if_splits)
  from r2 obtain l where i: "input_line ExportAnother (w2\<lparr>printed := printed w2 @ [ExportComplete]\<rparr>) = (Inr l, w')"
    by (auto simp: seq_def print_def return_def Let_def split: prod.splits sum.splits)
  from c stdin_le_choose_another[of env] have "length (stdin w1) \<le> length (stdin w)"
    by (auto simp: stdin_le_def dest: spec[of _ w])
  moreover from e stdin_le_export_solution[of env name "''./exports''"]
  have "length (stdin w2) \<le> length (stdin w1)"
    by (auto simp: stdin_le_def dest: spec[of _ w1])
  moreover from input_line_consumes[OF i] have "length (stdin w') < length (stdin w2)" by simp
  ultimately show ?thesis by simp
qed

function export_another_solution :: "environment \<Rightarrow> unit io" where
  "export_another_solution env w =
     (let r = another_round env w
      in if fst r = Inr True then export_another_solution env (snd r)
         else (case fst r of Inl e \<Rightarrow> (Inl e, snd r) | Inr _ \<Rightarrow> (Inr (), snd r)))"
  by pat_completeness auto
termination
proof (relation "measure (\<lambda>(env, w). length (stdin w))")
  show "wf (measure (\<lambda>(env, w). length (stdin w)))" by simp
next
  fix env w r
  assume "r = another_round env w" and "fst r = Inr True"
  then have "another_round env w = (Inr True, snd r)"
    by (simp add: prod_eq_iff)
  from another_round_consumes[OF this]
  show "((env, snd r), (env, w)) \<in> measure (\<lambda>(env, w). length (stdin w))"
    by simp
qed

declare export_another_solution.simps [simp del]

definition main :: "environment \<Rightarrow> unit io" where
  "main env =
     seq (choose_solution env) (\<lambda>solution_name.
     seq (export_solution env solution_name ''./exports'') (\<lambda>success.
       if success
       then seq (print ExportComplete) (\<lambda>_.
            seq (input_line ExportAnother) (\<lambda>line.
              let another = lower (strip line)
              in if another \<in> set [''y'', ''yes''] then export_another_solution env
                 else return ()))
       else raise (SystemExit 1)))"

definition exit_status :: "environment \<Rightarrow> world \<Rightarrow> int \<times> world" where
  \<comment> \<open>the process: \<open>main()\<close> returning gives status 0, \<open>sys.exit(n)\<close> gives \<open>n\<close>, any other
     exception that reaches the top gives 1. An interrupt from the keyboard is not modelled.\<close>
  "exit_status env w =
     (case main env w of
        (Inr _, w') \<Rightarrow> (0, w')
      | (Inl (SystemExit n), w') \<Rightarrow> (n, w')
      | (Inl _, w') \<Rightarrow> (1, w'))"

section \<open>An example environment\<close>

text \<open>
  A small environment on which the program can be run: a file system with a home
  directory, a clock, and an external tool that answers \<open>help\<close>, lists the given
  profiles and solutions, signs in, and exports a solution as the table \<open>exports\<close> says
  for its name (the exit status, and whether the file is written).
\<close>

definition example_fs :: filesystem where
  "example_fs = \<lparr>nodes = [[] \<mapsto> Dir, [''home''] \<mapsto> Dir], cwd = [''home'']\<rparr>"

definition example_world :: "string list \<Rightarrow> world" where
  "example_world inputs =
     \<lparr>stdin = inputs, printed = [], fs = example_fs, invoked = [], clock_reads = 0\<rparr>"

definition example_clock :: "nat \<Rightarrow> datetime" where
  "example_clock n =
     \<lparr>year = 2024, month = 3, day = 9, hour = 14, minute = 5, second = n mod 60\<rparr>"

definition write_file :: "filesystem \<Rightarrow> string \<Rightarrow> nat \<Rightarrow> filesystem" where
  "write_file f s n =
     f\<lparr>nodes := (nodes f)(start_of f (Path s) @ names (Path s) \<mapsto> File n)\<rparr>"

definition example_pac ::
  "string \<Rightarrow> string \<Rightarrow> (string \<Rightarrow> int \<times> bool) \<Rightarrow>
   string list list \<Rightarrow> filesystem \<Rightarrow> string list \<Rightarrow> pac_outcome"
where
  "example_pac profiles listing exports history f cmd =
     (if cmd = [''pac'', ''help'']
      then Completed \<lparr>returncode = 0, stdout = ''Version: 1.0'', stderr = []\<rparr> f
      else if cmd = [''pac'', ''auth'', ''list'']
      then Completed \<lparr>returncode = 0, stdout = profiles, stderr = []\<rparr> f
      else if cmd = [''pac'', ''solution'', ''list'']
      then Completed \<lparr>returncode = 0, stdout = listing, stderr = []\<rparr> f
      else if take 3 cmd = [''pac'', ''solution'', ''export'']
      then Completed \<lparr>returncode = fst (exports (cmd ! 4)), stdout = [], stderr = []\<rparr>
             (if snd (exports (cmd ! 4)) then write_file f (cmd ! 6) 2048 else f)
      else if take 3 cmd = [''pac'', ''auth'', ''create'']
      then Completed \<lparr>returncode = 0, stdout = [], stderr = []\<rparr> f
      else SpawnError FileNotFoundError)"

definition example_env :: "string \<Rightarrow> string \<Rightarrow> (string \<Rightarrow> int \<times> bool) \<Rightarrow> environment" where
  "example_env profiles listing exports =
     \<lparr>pac = example_pac profiles listing exports, clock = example_clock\<rparr>"

definition example_profiles :: string where
  "example_profiles = ''* https://o.crm.dynamics.com''"

definition example_listing :: string where
  "example_listing =
     ''Unique Name Friendly Version'' @ [CHR 0x0A] @ ''----- ---'' @ [CHR 0x0A] @
     ''A a 1'' @ [CHR 0x0A] @ ''-x y 2'' @ [CHR 0x0A] @ ''B b 2'' @ [CHR 0x0A]"

definition example_exports :: "string \<Rightarrow> int \<times> bool" where
  \<comment> \<open>\<open>A\<close> is exported; for \<open>C\<close> the tool reports success and writes nothing; any other
     name is unknown to the tool\<close>
  "example_exports n =
     (if n = ''A'' then (0, True) else if n = ''C'' then (0, False) else (1, False))"

definition example :: environment where
  "example = example_env example_profiles example_listing example_exports"

definition header_only_listing :: string where
  \<comment> \<open>a listing of a header, a separator and a blank line\<close>
  "header_only_listing = ''Unique Name Version'' @ [CHR 0x0A] @ ''-----'' @ [CHR 0x0A] @ '' ''"

definition example_fs1 :: filesystem where
  \<comment> \<open>the example file system with the directory \<open>exports\<close> in the home directory\<close>
  "example_fs1 = example_fs\<lparr>nodes := (nodes example_fs)([''home'', ''exports''] \<mapsto> Dir)\<rparr>"

definition example_solutions :: "solution list" where
  \<comment> \<open>the solutions that \<open>list_solutions\<close> finds in the example listing\<close>
  "example_solutions = [\<lparr>unique_name = ''A'', raw_line = ''A a 1''\<rparr>,
                        \<lparr>unique_name = ''B'', raw_line = ''B b 2''\<rparr>]"

text \<open>
  A second environment, for solution names that are paths: the file system also has the
  directory \<open>/tmp\<close>, and the tool exports every solution to the path it is given.
\<close>

definition tmp_fs :: filesystem where
  "tmp_fs = \<lparr>nodes = [[] \<mapsto> Dir, [''home''] \<mapsto> Dir, [''tmp''] \<mapsto> Dir], cwd = [''home'']\<rparr>"

definition tmp_world :: "string list \<Rightarrow> world" where
  "tmp_world inputs = (example_world inputs)\<lparr>fs := tmp_fs\<rparr>"

definition exporting_all :: environment where
  "exporting_all = example_env example_profiles example_listing (\<lambda>n. (0, True))"

section \<open>The calls of \<open>export_another_solution\<close> in a run\<close>

text \<open>
  \<open>another_calls env w wk\<close>: the run of \<open>main\<close> from world \<open>w\<close> calls
  \<open>export_another_solution\<close> in world \<open>wk\<close>. The first call is made by \<open>main\<close>, after a
  successful export and the answer \<open>y\<close> or \<open>yes\<close>; every further one by
  \<open>export_another_solution\<close> itself, at the end of a round that ends the same way.
\<close>

inductive another_calls :: "environment \<Rightarrow> world \<Rightarrow> world \<Rightarrow> bool" for env w where
  from_main:
    "choose_solution env w = (Inr solution_name, w1) \<Longrightarrow>
     export_solution env solution_name ''./exports'' w1 = (Inr True, w2) \<Longrightarrow>
     input_line ExportAnother (w2\<lparr>printed := printed w2 @ [ExportComplete]\<rparr>) = (Inr line, w3) \<Longrightarrow>
     lower (strip line) \<in> set [''y'', ''yes''] \<Longrightarrow>
     another_calls env w w3"
| from_round:
    "another_calls env w wk \<Longrightarrow>
     another_round env wk = (Inr True, wk') \<Longrightarrow>
     another_calls env w wk'"


section \<open>Running the definitions\<close>

text \<open>The definitions to unfold when a function is run on a given input.\<close>

lemmas io_defs = seq_def return_def raise_def print_def print_if_def input_line_def now_def
  run_pac_command_def mkdir_io_def exists_io_def st_size_io_def try_finally_def

lemmas string_defs = strip_def split_ws_def split_lines_def startswith_def isspace_def

lemmas path_defs = Path_def joinpath_def str_path_def parent_def start_of_def lookup_def
  path_exists_def is_dir_def st_size_def os_mkdir_def

lemmas example_defs = example_fs_def example_world_def example_clock_def write_file_def
  example_pac_def example_env_def example_def example_exports_def

section \<open>The table of solutions: version, managed flag and friendly name\<close>

lemma columns_of_long_line:
  assumes "3 \<le> length parts"
  shows "row_version (fst (columns_of_parts before parts)) =
           (if last parts = ''True'' \<or> last parts = ''False''
            then parts ! (length parts - 2) else last parts)"
    and "snd (columns_of_parts before parts) =
           Some (if last parts = ''True'' \<or> last parts = ''False'' then last parts else [])"
  using assms by (auto simp: columns_of_parts_def is_bool_literal_def Let_def)

lemma columns_of_short_line:
  assumes "length parts < 3"
  shows "row_version (fst (columns_of_parts before parts)) = []"
    and "snd (columns_of_parts before parts) = before"
  using assms by (auto simp: columns_of_parts_def Let_def)

lemma display_keeps_version:
  "row_version (fst (display_columns before line)) =
     row_version (fst (columns_of_parts before (split_ws line)))"
  and display_keeps_managed:
  "snd (display_columns before line) = snd (columns_of_parts before (split_ws line))"
  by (simp_all add: display_columns_def Let_def)

text \<open>
  A row of fewer than three tokens does not touch \<open>managed\<close>: the variable keeps what an
  earlier row left in it, and is still unbound when there was none.
\<close>

lemma short_line_keeps_managed:
  assumes "length (split_ws line) < 3"
  shows "snd (display_columns before line) = before"
  using assms by (simp add: display_keeps_managed columns_of_short_line)

text \<open>
  Claim C3, as amended. The version and the managed flag are read from the end of the line
  only when the line has at least three whitespace-separated tokens: then, if the last
  token is exactly \<open>True\<close> or \<open>False\<close>, the version is the second-to-last token and the
  last token is the managed flag; otherwise the version is the last token and there is no
  managed flag (\<open>managed\<close> is the empty string). A line of fewer than three tokens gets an
  empty version, whatever its last token is.
\<close>

theorem version_and_managed_columns:
  fixes line :: string and before :: "string option"
  defines "parts \<equiv> split_ws line"
  defines "version \<equiv> row_version (fst (display_columns before line))"
  defines "managed \<equiv> snd (display_columns before line)"
  shows "(3 \<le> length parts \<longrightarrow>
            (if last parts = ''True'' \<or> last parts = ''False''
             then version = parts ! (length parts - 2) \<and> managed = Some (last parts)
             else version = last parts \<and> managed = Some [])) \<and>
         (length parts < 3 \<longrightarrow> version = [])"
  unfolding parts_def version_def managed_def display_keeps_version display_keeps_managed
  by (simp add: columns_of_long_line columns_of_short_line)

theorem version_and_managed_columns_witness:
  "row_version (fst (display_columns None ''Foo My App 1.0.0.1 False'')) = ''1.0.0.1'' \<and>
   snd (display_columns None ''Foo My App 1.0.0.1 False'') = Some ''False'' \<and>
   row_version (fst (display_columns None ''Foo My App 1.0.0.1'')) = ''1.0.0.1'' \<and>
   snd (display_columns None ''Foo My App 1.0.0.1'') = Some [] \<and>
   row_version (fst (display_columns None ''Foo 1.0'')) = []"
proof -
  have a: "split_ws ''Foo My App 1.0.0.1 False'' = [''Foo'', ''My'', ''App'', ''1.0.0.1'', ''False'']"
    by (simp add: string_defs)
  have b: "split_ws ''Foo My App 1.0.0.1'' = [''Foo'', ''My'', ''App'', ''1.0.0.1'']"
    by (simp add: string_defs)
  have c: "split_ws ''Foo 1.0'' = [''Foo'', ''1.0'']"
    by (simp add: string_defs)
  show ?thesis
    using version_and_managed_columns [where line = "''Foo My App 1.0.0.1 False''" and before = None]
      version_and_managed_columns [where line = "''Foo My App 1.0.0.1''" and before = None]
      version_and_managed_columns [where line = "''Foo 1.0''" and before = None]
    unfolding a b c by simp
qed

text \<open>
  The claim as first stated, without the bound of three tokens, fails on the two-token
  line \<open>Foo 1.0\<close>: its last token is not a boolean literal, yet the version shown is not
  that token but the empty string.
\<close>

theorem version_of_two_token_line_counterexample:
  "split_ws ''Foo 1.0'' = [''Foo'', ''1.0''] \<and>
   last (split_ws ''Foo 1.0'') \<noteq> ''True'' \<and> last (split_ws ''Foo 1.0'') \<noteq> ''False'' \<and>
   row_version (fst (display_columns None ''Foo 1.0'')) = [] \<and>
   row_version (fst (display_columns None ''Foo 1.0'')) \<noteq> last (split_ws ''Foo 1.0'')"
proof -
  have c: "split_ws ''Foo 1.0'' = [''Foo'', ''1.0'']"
    by (simp add: string_defs)
  show ?thesis
    unfolding display_keeps_version c
    by (simp add: columns_of_parts_def Let_def)
qed

text \<open>
  Claim C8. The friendly name computed for a row is shown unchanged when it has at most
  24 characters; a longer one is shown as its first 21 characters followed by three dots,
  24 characters in all.
\<close>

theorem friendly_name_truncation:
  fixes line :: string and before :: "string option"
  defines "computed \<equiv> row_friendly_name (fst (columns_of_parts before (split_ws line)))"
  defines "shown \<equiv> row_friendly_name (fst (display_columns before line))"
  shows "if length computed > 24
         then shown = take 21 computed @ ''...'' \<and> length shown = 24
         else shown = computed"
  unfolding computed_def shown_def
  by (simp add: display_columns_def Let_def truncate_friendly_def)

theorem friendly_name_truncation_witness:
  "row_friendly_name
     (fst (columns_of_parts None
             (split_ws ''Crm Customer Relationship Management Hub 1.0 True'')))
     = ''Customer Relationship Management Hub'' \<and>
   row_friendly_name (fst (display_columns None ''Crm Customer Relationship Management Hub 1.0 True''))
     = ''Customer Relationship...'' \<and>
   row_friendly_name (fst (display_columns None ''Crm Sales Hub 1.0 True'')) = ''Sales Hub''"
proof -
  have a: "row_friendly_name
     (fst (columns_of_parts None
             (split_ws ''Crm Customer Relationship Management Hub 1.0 True'')))
     = ''Customer Relationship Management Hub''"
    by (simp add: columns_of_parts_def string_defs is_bool_literal_def Let_def)
  have b: "row_friendly_name (fst (columns_of_parts None (split_ws ''Crm Sales Hub 1.0 True'')))
             = ''Sales Hub''"
    by (simp add: columns_of_parts_def string_defs is_bool_literal_def Let_def)
  show ?thesis
    using friendly_name_truncation [where line = "''Crm Customer Relationship Management Hub 1.0 True''" and before = None]
      friendly_name_truncation [where line = "''Crm Sales Hub 1.0 True''" and before = None]
    unfolding a b by (simp add: a)
qed

section \<open>The records \<open>list_solutions\<close> returns\<close>

lemma print_rows_returns: "fst (print_rows i m sols w) = Inr ()"
  by (induction sols arbitrary: i m w) (simp_all add: return_def seq_def print_def Let_def)

lemma print_rows_never_raises: "print_rows i m sols w = (Inl e, w') \<Longrightarrow> False"
  using print_rows_returns [of i m sols w] by simp

lemma list_solutions_result:
  "fst (list_solutions env w) =
     (case pac env (invoked w) (fs w) [''pac'', ''solution'', ''list''] of
        Completed r fs' \<Rightarrow> Inr (if returncode r \<noteq> 0 then [] else parse_solutions (stdout r))
      | SpawnError e \<Rightarrow> Inl (if e = FileNotFoundError then SystemExit 1 else OSError e))"
proof (cases "pac env (invoked w) (fs w) [''pac'', ''solution'', ''list'']")
  case (SpawnError e)
  then show ?thesis
    by (simp add: list_solutions_def seq_def print_def run_pac_command_def raise_def Let_def)
next
  case (Completed r fs')
  then show ?thesis
    by (auto simp: list_solutions_def seq_def print_def print_if_def run_pac_command_def
        return_def Let_def split: prod.splits sum.splits dest: print_rows_never_raises)
qed

lemma parse_lines_records:
  assumes "r \<in> set (parse_lines ls)"
  shows "raw_line r \<in> set ls \<and> \<not> skip_line (raw_line r) \<and>
         (\<exists>p ps. split_ws (raw_line r) = p # ps \<and> unique_name r = p \<and> \<not> startswith p ''-'')"
  using assms
  by (induction ls) (auto split: if_splits list.splits)

lemma parse_lines_all_skipped:
  assumes "\<forall>line \<in> set ls. skip_line line"
  shows "parse_lines ls = []"
  using assms by (induction ls) simp_all

lemma example_listing_lines:
  "split_lines (strip example_listing) =
     [''Unique Name Friendly Version'', ''----- ---'', ''A a 1'', ''-x y 2'', ''B b 2'']"
  by (simp add: example_listing_def string_defs)

lemma example_listing_parsed:
  "parse_solutions example_listing =
     [\<lparr>unique_name = ''A'', raw_line = ''A a 1''\<rparr>, \<lparr>unique_name = ''B'', raw_line = ''B b 2''\<rparr>]"
proof -
  have "example_listing \<noteq> []" by (simp add: example_listing_def)
  then have "parse_solutions example_listing =
               parse_lines [''Unique Name Friendly Version'', ''----- ---'', ''A a 1'',
                            ''-x y 2'', ''B b 2'']"
    by (simp add: parse_solutions_def example_listing_lines)
  also have "\<dots> = [\<lparr>unique_name = ''A'', raw_line = ''A a 1''\<rparr>,
                     \<lparr>unique_name = ''B'', raw_line = ''B b 2''\<rparr>]"
    by (simp add: skip_line_def string_defs)
  finally show ?thesis .
qed

lemma example_lists_solutions:
  "fst (list_solutions example w) =
     Inr [\<lparr>unique_name = ''A'', raw_line = ''A a 1''\<rparr>, \<lparr>unique_name = ''B'', raw_line = ''B b 2''\<rparr>]"
  by (simp add: list_solutions_result example_def example_env_def example_pac_def
      example_listing_parsed)

text \<open>
  Claim C4, as amended. When every line of the listing (the lines of the stripped output,
  as \<open>list_solutions\<close> reads them) is blank, contains \<open>---\<close> or contains \<open>Unique Name\<close>,
  \<open>list_solutions\<close> returns no record. The token \<open>Index\<close> is a header of the profile
  listing only: \<open>list_solutions\<close> does not look for it.
\<close>

theorem header_only_listing_is_empty:
  assumes "pac env (invoked w) (fs w) [''pac'', ''solution'', ''list''] = Completed result fs'"
    and "\<forall>line \<in> set (split_lines (strip (stdout result))).
           strip line = [] \<or> contains ''---'' line \<or> contains ''Unique Name'' line"
  shows "fst (list_solutions env w) = Inr []"
proof -
  from assms(2) have "\<forall>line \<in> set (split_lines (strip (stdout result))). skip_line line"
    by (auto simp: skip_line_def)
  then have "parse_solutions (stdout result) = []"
    by (simp add: parse_solutions_def parse_lines_all_skipped)
  with assms(1) show ?thesis
    by (simp add: list_solutions_result)
qed

theorem header_only_listing_is_empty_witness:
  "fst (list_solutions (example_env example_profiles header_only_listing example_exports)
          (example_world [])) = Inr []"
proof -
  let ?env = "example_env example_profiles header_only_listing example_exports"
  let ?result = "\<lparr>returncode = 0, stdout = header_only_listing, stderr = []\<rparr>"
  have run: "pac ?env (invoked (example_world [])) (fs (example_world []))
               [''pac'', ''solution'', ''list''] = Completed ?result example_fs"
    by (simp add: example_env_def example_pac_def example_world_def)
  have lines: "split_lines (strip (stdout ?result)) = [''Unique Name Version'', ''-----'']"
    by (simp add: header_only_listing_def string_defs)
  have "\<forall>line \<in> set (split_lines (strip (stdout ?result))).
          strip line = [] \<or> contains ''---'' line \<or> contains ''Unique Name'' line"
    unfolding lines by (simp add: string_defs)
  from header_only_listing_is_empty [OF run this] show ?thesis .
qed

text \<open>
  The claim as first stated also promises an empty result when a line only contains the
  token \<open>Index\<close>. It fails on the one-line listing \<open>Index\<close>, which \<open>list_solutions\<close> parses
  as a solution of that name.
\<close>

theorem index_listing_counterexample:
  "split_lines (strip ''Index'') = [''Index''] \<and> contains ''Index'' ''Index'' \<and>
   fst (list_solutions (example_env example_profiles ''Index'' example_exports)
          (example_world [])) = Inr [\<lparr>unique_name = ''Index'', raw_line = ''Index''\<rparr>]"
proof -
  have "parse_solutions ''Index'' = [\<lparr>unique_name = ''Index'', raw_line = ''Index''\<rparr>]"
    by (simp add: parse_solutions_def skip_line_def string_defs)
  then show ?thesis
    by (simp add: list_solutions_result example_env_def example_pac_def string_defs)
qed

text \<open>
  Claim C10. A line that passes the filters (not blank, no \<open>---\<close>, no \<open>Unique Name\<close>) and
  whose first whitespace token begins with \<open>-\<close> is the raw line of no record that
  \<open>list_solutions\<close> returns.
\<close>

theorem dash_line_gives_no_record:
  assumes "fst (list_solutions env w) = Inr solutions"
    and "strip line \<noteq> []" and "\<not> contains ''---'' line" and "\<not> contains ''Unique Name'' line"
    and "split_ws line = p # ps" and "startswith p ''-''"
  shows "line \<notin> raw_line ` set solutions"
proof
  assume "line \<in> raw_line ` set solutions"
  then obtain r where r: "r \<in> set solutions" and l: "raw_line r = line"
    by auto
  from r have "solutions \<noteq> []" by auto
  with assms(1) obtain res :: completed_process
    where "solutions = parse_solutions (stdout res)"
    by (auto simp: list_solutions_result split: pac_outcome.splits if_splits)
  with r have "r \<in> set (parse_lines (split_lines (strip (stdout res))))"
    by (auto simp: parse_solutions_def split: if_splits)
  from parse_lines_records [OF this] l obtain q qs
    where "split_ws line = q # qs" and "\<not> startswith q ''-''"
    by auto
  with assms(5,6) show False by simp
qed

theorem dash_line_gives_no_record_witness:
  "''-x y 2'' \<in> set (split_lines (strip example_listing)) \<and>
   fst (list_solutions example (example_world [])) =
     Inr [\<lparr>unique_name = ''A'', raw_line = ''A a 1''\<rparr>, \<lparr>unique_name = ''B'', raw_line = ''B b 2''\<rparr>] \<and>
   ''-x y 2'' \<notin> raw_line `
     set [\<lparr>unique_name = ''A'', raw_line = ''A a 1''\<rparr>, \<lparr>unique_name = ''B'', raw_line = ''B b 2''\<rparr>]"
proof -
  have a: "strip ''-x y 2'' \<noteq> []" "\<not> contains ''---'' ''-x y 2''"
    "\<not> contains ''Unique Name'' ''-x y 2''" "split_ws ''-x y 2'' = ''-x'' # [''y'', ''2'']"
    "startswith ''-x'' ''-''"
    by (simp_all add: string_defs)
  from dash_line_gives_no_record [OF example_lists_solutions a]
  show ?thesis
    by (simp add: example_listing_lines example_lists_solutions)
qed

section \<open>Authentication\<close>

lemma lower_char_idem: "lower_char (lower_char c) = lower_char c"
proof -
  have "of_char (char_of (n + 32) :: char) = n + 32" if "n < 224" for n :: nat
    using that by simp
  then show ?thesis
    by (auto simp: lower_char_def Let_def)
qed

lemma lower_idem: "lower (lower s) = lower s"
  by (simp add: lower_def lower_char_idem)

lemma scan_profiles_iff:
  "scan_profiles ls \<longleftrightarrow>
     (\<exists>line \<in> set ls. strip line \<noteq> [] \<and> \<not> contains ''---'' line \<and> \<not> contains ''Index'' line \<and>
        contains ''http'' (lower line) \<and> contains ''crm'' (lower line))"
  by (induction ls) auto

text \<open>
  Claim C9, as amended. For a profile listing with exit status zero, an active profile is
  detected exactly when both hold: the lower-cased output contains \<open>active\<close>, or contains
  \<open>http\<close> and does not contain \<open>universal\<close>; and some line that is not blank and contains
  neither \<open>---\<close> nor \<open>Index\<close> contains both \<open>http\<close> and \<open>crm\<close>, case-insensitively.
\<close>

theorem active_profile_detection:
  assumes "returncode result = 0"
  shows "has_active_profile result \<longleftrightarrow>
           (contains ''active'' (lower (stdout result)) \<or>
            (contains ''http'' (lower (stdout result)) \<and>
             \<not> contains ''universal'' (lower (stdout result)))) \<and>
           (\<exists>line \<in> set (split_lines (strip (stdout result))).
              strip line \<noteq> [] \<and> \<not> contains ''---'' line \<and> \<not> contains ''Index'' line \<and>
              contains ''http'' (lower line) \<and> contains ''crm'' (lower line))"
proof (cases "stdout result = []")
  case True
  have "split_lines (strip []) = [[]]"
    by (simp add: split_lines_def strip_def)
  with True assms show ?thesis
    by (simp add: has_active_profile_def strip_def)
next
  case False
  with assms show ?thesis
    by (simp add: has_active_profile_def Let_def lower_idem scan_profiles_iff)
qed

lemma example_profiles_lower: "lower example_profiles = ''* https://o.crm.dynamics.com''"
  unfolding example_profiles_def by code_simp

theorem active_profile_detection_witness:
  "has_active_profile \<lparr>returncode = 0, stdout = example_profiles, stderr = []\<rparr>"
proof -
  let ?r = "\<lparr>returncode = 0, stdout = example_profiles, stderr = []\<rparr>"
  have rc: "returncode ?r = 0" by simp
  have lines: "split_lines (strip example_profiles) = [example_profiles]"
    by (simp add: example_profiles_def string_defs)
  have line: "strip example_profiles \<noteq> []" "\<not> contains ''---'' example_profiles"
    "\<not> contains ''Index'' example_profiles"
    by (simp_all add: example_profiles_def string_defs)
  have low: "contains ''http'' (lower example_profiles)" "contains ''crm'' (lower example_profiles)"
    "\<not> contains ''universal'' (lower example_profiles)"
    unfolding example_profiles_lower by (simp_all add: string_defs)
  show ?thesis
    using active_profile_detection [OF rc] by (simp add: lines line low)
qed

text \<open>
  The claim as first stated leaves out the test on the whole output. It fails on a
  listing whose only line names a universal profile: the line contains \<open>http\<close> and \<open>crm\<close>
  and none of the header marks, yet no active profile is detected, because the output
  contains \<open>universal\<close> and not \<open>active\<close>.
\<close>

theorem universal_profile_counterexample:
  "returncode \<lparr>returncode = 0, stdout = ''[1] UNIVERSAL https://o.crm.dynamics.com'',
               stderr = []\<rparr> = 0 \<and>
   split_lines (strip ''[1] UNIVERSAL https://o.crm.dynamics.com'') =
     [''[1] UNIVERSAL https://o.crm.dynamics.com''] \<and>
   strip ''[1] UNIVERSAL https://o.crm.dynamics.com'' \<noteq> [] \<and>
   \<not> contains ''---'' ''[1] UNIVERSAL https://o.crm.dynamics.com'' \<and>
   \<not> contains ''Index'' ''[1] UNIVERSAL https://o.crm.dynamics.com'' \<and>
   contains ''http'' (lower ''[1] UNIVERSAL https://o.crm.dynamics.com'') \<and>
   contains ''crm'' (lower ''[1] UNIVERSAL https://o.crm.dynamics.com'') \<and>
   \<not> has_active_profile
       \<lparr>returncode = 0, stdout = ''[1] UNIVERSAL https://o.crm.dynamics.com'', stderr = []\<rparr>"
proof -
  have low: "lower ''[1] UNIVERSAL https://o.crm.dynamics.com'' =
               ''[1] universal https://o.crm.dynamics.com''"
    by code_simp
  have low2: "lower ''[1] universal https://o.crm.dynamics.com'' =
               ''[1] universal https://o.crm.dynamics.com''"
    by code_simp
  have whole: "\<not> contains ''active'' ''[1] universal https://o.crm.dynamics.com''"
    "contains ''universal'' ''[1] universal https://o.crm.dynamics.com''"
    "contains ''http'' ''[1] universal https://o.crm.dynamics.com''"
    "contains ''crm'' ''[1] universal https://o.crm.dynamics.com''"
    by (simp_all add: string_defs)
  have rest: "split_lines (strip ''[1] UNIVERSAL https://o.crm.dynamics.com'') =
     [''[1] UNIVERSAL https://o.crm.dynamics.com'']"
    "strip ''[1] UNIVERSAL https://o.crm.dynamics.com'' \<noteq> []"
    "\<not> contains ''---'' ''[1] UNIVERSAL https://o.crm.dynamics.com''"
    "\<not> contains ''Index'' ''[1] UNIVERSAL https://o.crm.dynamics.com''"
    by (simp_all add: string_defs)
  show ?thesis
    by (simp only: rest low low2 whole has_active_profile_def Let_def simp_thms
        completed_process.simps list.simps if_True if_False refl)
qed

text \<open>
  \<open>ensure_authenticated\<close> comes to the sign-in when no active profile is detected, and when
  the user declines the profile found.
\<close>

lemma ensure_authenticated_signs_in:
  assumes "pac env (invoked w) (fs w) [''pac'', ''auth'', ''list''] = Completed result fs'"
    and "\<not> has_active_profile result"
  shows "ensure_authenticated env w =
           sign_in env (w\<lparr>printed := printed w @ [CheckingAuth],
                          invoked := invoked w @ [[''pac'', ''auth'', ''list'']],
                          fs := fs'\<rparr>)"
  using assms
  by (simp add: ensure_authenticated_def seq_def print_def run_pac_command_def)

lemma ensure_authenticated_declined:
  assumes "pac env (invoked w) (fs w) [''pac'', ''auth'', ''list''] = Completed result fs'"
    and "has_active_profile result"
    and "stdin w = line # rest"
    and "lower (strip line) \<notin> set [[], ''y'', ''yes'']"
  shows "ensure_authenticated env w =
           sign_in env (w\<lparr>invoked := invoked w @ [[''pac'', ''auth'', ''list'']],
                          fs := fs',
                          printed := printed w @ [CheckingAuth, FoundProfile,
                                                  CurrentProfiles (stdout result),
                                                  Prompt UseExistingProfile],
                          stdin := rest\<rparr>)"
  using assms
  by (simp add: ensure_authenticated_def seq_def print_def run_pac_command_def input_line_def
      Let_def)

text \<open>
  Claim C7. In the sign-in flow the environment URL is the line read, stripped. When it is
  empty the flow fails and no sign-in is run. Otherwise the sign-in is run with the URL
  itself when it starts with \<open>http\<close>, and with \<open>https://\<close> put in front of it when it does
  not.
\<close>

theorem sign_in_url:
  assumes "stdin w = line # rest"
  shows "if strip line = []
         then fst (sign_in env w) = Inr False \<and> invoked (snd (sign_in env w)) = invoked w
         else if \<not> startswith (strip line) ''http''
         then invoked (snd (sign_in env w)) =
                invoked w @ [[''pac'', ''auth'', ''create'', ''--url'', ''https://'' @ strip line]]
         else invoked (snd (sign_in env w)) =
                invoked w @ [[''pac'', ''auth'', ''create'', ''--url'', strip line]]"
  using assms
  by (auto simp: sign_in_def seq_def print_def input_line_def return_def raise_def
      run_pac_command_def Let_def split: pac_outcome.splits)

theorem sign_in_url_witness:
  "invoked (snd (sign_in example (example_world [''org.crm.dynamics.com'']))) =
     [[''pac'', ''auth'', ''create'', ''--url'', ''https://org.crm.dynamics.com'']] \<and>
   invoked (snd (sign_in example (example_world [''http://org.crm.dynamics.com'']))) =
     [[''pac'', ''auth'', ''create'', ''--url'', ''http://org.crm.dynamics.com'']] \<and>
   fst (sign_in example (example_world ['' ''])) = Inr False \<and>
   invoked (snd (sign_in example (example_world ['' '']))) = []"
proof -
  have a: "stdin (example_world [s]) = s # []" for s
    by (simp add: example_world_def)
  have s: "strip ''org.crm.dynamics.com'' = ''org.crm.dynamics.com''"
    "strip ''http://org.crm.dynamics.com'' = ''http://org.crm.dynamics.com''"
    "strip '' '' = []"
    by (simp_all add: string_defs)
  have h: "\<not> startswith ''org.crm.dynamics.com'' ''http''"
    "startswith ''http://org.crm.dynamics.com'' ''http''"
    by (simp_all add: string_defs)
  have i: "invoked (example_world [s]) = []" for s
    by (simp add: example_world_def)
  show ?thesis
    using sign_in_url [OF a, of "''org.crm.dynamics.com''" example]
      sign_in_url [OF a, of "''http://org.crm.dynamics.com''" example]
      sign_in_url [OF a, of "'' ''" example]
    by (simp add: s h i)
qed

section \<open>Timestamps\<close>

lemma digit_char_is_digit: "d < 10 \<Longrightarrow> is_digit (digit_char d)"
proof -
  assume "d < 10"
  then have "d < length ''0123456789''" by simp
  then have "''0123456789'' ! d \<in> set ''0123456789''" by (rule nth_mem)
  then show ?thesis by (simp only: is_digit_def digit_char_def)
qed

lemma str_nat_digits: "list_all is_digit (str_nat n)"
proof (induction n rule: str_nat.induct)
  case (1 n)
  show ?case
  proof (cases "n < 10")
    case True
    then show ?thesis by (simp add: str_nat.simps [of n] digit_char_is_digit)
  next
    case False
    with 1 show ?thesis by (simp add: str_nat.simps [of n] digit_char_is_digit)
  qed
qed

lemma str_nat_length: "n < 10 ^ k \<Longrightarrow> 0 < k \<Longrightarrow> length (str_nat n) \<le> k"
proof (induction n arbitrary: k rule: str_nat.induct)
  case (1 n)
  show ?case
  proof (cases "n < 10")
    case True
    with 1(3) show ?thesis by (simp add: str_nat.simps [of n])
  next
    case False
    from 1(3) obtain j where k: "k = Suc j" by (cases k) auto
    with 1(2) have "n div 10 < 10 ^ j"
      by (simp add: less_mult_imp_div_less mult.commute)
    moreover from False this have "0 < j" by (cases j) auto
    ultimately have "length (str_nat (n div 10)) \<le> j"
      using 1(1) False by simp
    with False k show ?thesis by (simp add: str_nat.simps [of n])
  qed
qed

lemma str_nat_nonempty: "str_nat n \<noteq> []"
  by (simp add: str_nat.simps [of n])

lemma zero_pad_width:
  assumes "n < 10 ^ k" and "0 < k"
  shows "length (zero_pad k n) = k" and "list_all is_digit (zero_pad k n)"
proof -
  from str_nat_length [OF assms] show "length (zero_pad k n) = k"
    by (simp add: zero_pad_def)
  have "is_digit (CHR ''0'')" by (simp add: is_digit_def)
  then have "list_all is_digit (replicate m (CHR ''0''))" for m
    by (induction m) simp_all
  with str_nat_digits [of n] show "list_all is_digit (zero_pad k n)"
    by (simp add: zero_pad_def)
qed

lemma strftime_shape:
  assumes "valid_datetime t"
  shows "length (strftime t) = 15"
    and "list_all is_digit (take 8 (strftime t))"
    and "strftime t ! 8 = CHR ''_''"
    and "list_all is_digit (drop 9 (strftime t))"
proof -
  from assms have b: "year t < 10 ^ 4" "month t < 10 ^ 2" "day t < 10 ^ 2"
    "hour t < 10 ^ 2" "minute t < 10 ^ 2" "second t < 10 ^ 2"
    by (simp_all add: valid_datetime_def)
  note w = zero_pad_width(1) [OF b(1)] zero_pad_width(1) [OF b(2)] zero_pad_width(1) [OF b(3)]
    zero_pad_width(1) [OF b(4)] zero_pad_width(1) [OF b(5)] zero_pad_width(1) [OF b(6)]
  note d = zero_pad_width(2) [OF b(1)] zero_pad_width(2) [OF b(2)] zero_pad_width(2) [OF b(3)]
    zero_pad_width(2) [OF b(4)] zero_pad_width(2) [OF b(5)] zero_pad_width(2) [OF b(6)]
  show "length (strftime t) = 15" using w by (simp add: strftime_def)
  show "list_all is_digit (take 8 (strftime t))" using w d by (simp add: strftime_def)
  show "strftime t ! 8 = CHR ''_''" using w by (simp add: strftime_def nth_append)
  show "list_all is_digit (drop 9 (strftime t))" using w d by (simp add: strftime_def)
qed

lemma strftime_no_slash: "CHR ''/'' \<notin> set (strftime t)"
proof -
  have "CHR ''/'' \<notin> set (zero_pad k n)" for k n
    using str_nat_digits [of n]
    by (auto simp: zero_pad_def list_all_iff is_digit_def)
  then show ?thesis by (simp add: strftime_def)
qed

section \<open>Paths\<close>

lemma split_on_from_absent:
  "d \<notin> set s \<Longrightarrow> split_on_from d cur s = [cur @ s]"
  by (induction s arbitrary: cur) auto

lemma Path_single_name:
  assumes "CHR ''/'' \<notin> set s" and "s \<noteq> []" and "s \<noteq> ''.''"
  shows "Path s = \<lparr>anchor = [], names = [s]\<rparr>"
proof -
  from assms(1,2) have "takeWhile (\<lambda>c. c = CHR ''/'') s = []"
    by (cases s) auto
  with assms show ?thesis
    by (simp add: Path_def split_on_from_absent)
qed

lemma export_filename_single_name:
  assumes "CHR ''/'' \<notin> set solution_name"
  shows "Path (export_filename solution_name t) =
           \<lparr>anchor = [], names = [export_filename solution_name t]\<rparr>"
proof (rule Path_single_name)
  show "CHR ''/'' \<notin> set (export_filename solution_name t)"
    using assms strftime_no_slash [of t] by (simp add: export_filename_def)
  show "export_filename solution_name t \<noteq> []"
    by (simp add: export_filename_def)
  have "length (export_filename solution_name t) \<ge> 5"
    by (simp add: export_filename_def)
  then show "export_filename solution_name t \<noteq> ''.''"
    by auto
qed

lemma export_target_inside:
  assumes "CHR ''/'' \<notin> set solution_name"
  shows "export_target env solution_name output_dir w =
           \<lparr>anchor = anchor (Path output_dir),
            names = names (Path output_dir) @
                    [export_filename solution_name (clock env (clock_reads w))]\<rparr>"
  by (simp add: export_target_def joinpath_def export_filename_single_name [OF assms])

section \<open>Making directories\<close>

lemma walk_append:
  "walk f cur (ns @ ms) = (case walk f cur ns of Inl e \<Rightarrow> Inl e | Inr loc \<Rightarrow> walk f loc ms)"
  by (induction ns arbitrary: cur) (auto split: option.splits node.splits)

lemma walk_new_dir:
  assumes "walk f cur ns = Inr loc" and "nodes f x = None"
  shows "walk (f\<lparr>nodes := (nodes f)(x \<mapsto> Dir)\<rparr>) cur ns = Inr loc"
  using assms
  by (induction ns arbitrary: cur) (auto split: option.splits node.splits)

lemma os_mkdir_creates:
  assumes "os_mkdir f p = Inr f'"
  shows "is_dir f' p"
proof -
  from assms have ne: "names p \<noteq> []"
    by (auto simp: os_mkdir_def split: if_splits)
  with assms obtain par where
    w: "walk f (start_of f p) (butlast (names p)) = Inr par"
    and d: "nodes f par = Some Dir"
    and n: "nodes f (par @ [last (names p)]) = None"
    and l: "last (names p) \<noteq> ''..''"
    and f': "f' = f\<lparr>nodes := (nodes f)(par @ [last (names p)] \<mapsto> Dir)\<rparr>"
    by (auto simp: os_mkdir_def split: if_splits sum.splits option.splits node.splits)
  from walk_new_dir [OF w n] f'
  have w': "walk f' (start_of f p) (butlast (names p)) = Inr par" by simp
  from d n f' have d': "nodes f' par = Some Dir" by auto
  have s: "start_of f' p = start_of f p" by (simp add: f' start_of_def)
  from ne have "names p = butlast (names p) @ [last (names p)]" by simp
  then have "walk f' (start_of f' p) (names p) =
               walk f' (start_of f p) (butlast (names p) @ [last (names p)])"
    by (simp add: s)
  also have "\<dots> = Inr (par @ [last (names p)])"
    using w' d' l by (simp add: walk_append)
  finally show ?thesis
    by (simp add: is_dir_def lookup_def f')
qed

lemma os_mkdir_existing:
  assumes "is_dir f p"
  shows "os_mkdir f p = Inl FileExistsError"
proof (cases "names p = []")
  case True
  with assms show ?thesis
    by (simp add: os_mkdir_def is_dir_def lookup_def)
next
  case False
  then have split: "names p = butlast (names p) @ [last (names p)]" by simp
  from assms obtain loc where
    w: "walk f (start_of f p) (names p) = Inr loc" and d: "nodes f loc = Some Dir"
    by (auto simp: is_dir_def lookup_def split: sum.splits)
  from w split have "walk f (start_of f p) (butlast (names p) @ [last (names p)]) = Inr loc"
    by simp
  then obtain par where
    p: "walk f (start_of f p) (butlast (names p)) = Inr par"
    and s: "walk f par [last (names p)] = Inr loc"
    by (auto simp: walk_append split: sum.splits)
  from s have pd: "nodes f par = Some Dir"
    and loc: "loc = (if last (names p) = ''..'' then butlast par else par @ [last (names p)])"
    by (auto split: option.splits node.splits)
  from False p pd loc d show ?thesis
    by (auto simp: os_mkdir_def split: if_splits)
qed

lemma mkdir_existing:
  assumes "is_dir f p"
  shows "mkdir f p parents True = (Inr (), f)"
  using assms os_mkdir_existing [OF assms]
  by (simp add: mkdir.simps [of f p])

lemma mkdir_makes_dir:
  "fst (mkdir f p parents exist_ok) = Inr u \<Longrightarrow> is_dir (snd (mkdir f p parents exist_ok)) p"
proof (induction f p parents exist_ok rule: mkdir.induct)
  case (1 f p parents exist_ok)
  show ?case
  proof (cases "os_mkdir f p")
    case (Inr f')
    then show ?thesis
      by (simp add: mkdir.simps [of f p] os_mkdir_creates)
  next
    case (Inl e)
    show ?thesis
    proof (cases "e = FileNotFoundError")
      case False
      with Inl 1(3) show ?thesis
        by (simp add: mkdir.simps [of f p] split: if_splits)
    next
      case True
      with Inl 1(3) have go: "\<not> (\<not> parents \<or> parent p = p)"
        by (auto simp: mkdir.simps [of f p] split: if_splits)
      let ?r = "mkdir f (parent p) True True"
      from Inl True go 1(3) obtain v where ok: "fst ?r = Inr v"
        by (cases "fst ?r") (auto simp: mkdir.simps [of f p] Let_def)
      with Inl True go have eq: "mkdir f p parents exist_ok = mkdir (snd ?r) p False exist_ok"
        by (simp add: mkdir.simps [of f p] Let_def)
      from 1(2) [OF Inl True go refl ok] 1(3) eq show ?thesis
        by simp
    qed
  qed
qed


lemma walk_plain:
  assumes "walk f cur ns = Inr loc" and "''..'' \<notin> set ns"
  shows "loc = cur @ ns"
  using assms
  by (induction ns arbitrary: cur) (fastforce split: option.splits node.splits)+

lemma walk_error_without_files:
  assumes "walk f cur ns = Inl e"
    and "\<forall>k \<le> length ns. \<forall>n. nodes f (cur @ take k ns) \<noteq> Some (File n)"
    and "''..'' \<notin> set ns"
  shows "e = FileNotFoundError"
  using assms
proof (induction ns arbitrary: cur)
  case Nil
  then show ?case by simp
next
  case (Cons a ns)
  from Cons.prems(2) have here: "\<forall>n. nodes f cur \<noteq> Some (File n)"
    by (auto dest: spec [of _ 0])
  show ?case
  proof (cases "nodes f cur")
    case None
    with Cons.prems(1) show ?thesis by simp
  next
    case (Some nd)
    with here have d: "nodes f cur = Some Dir" by (cases nd) auto
    from Cons.prems(3) have a: "a \<noteq> ''..''" and ns: "''..'' \<notin> set ns" by auto
    from Cons.prems(1) d a have w: "walk f (cur @ [a]) ns = Inl e" by simp
    have "\<forall>k \<le> length ns. \<forall>n. nodes f ((cur @ [a]) @ take k ns) \<noteq> Some (File n)"
    proof (intro allI impI)
      fix k n assume "k \<le> length ns"
      then have "Suc k \<le> length (a # ns)" by simp
      with Cons.prems(2) have "nodes f (cur @ take (Suc k) (a # ns)) \<noteq> Some (File n)"
        by blast
      then show "nodes f ((cur @ [a]) @ take k ns) \<noteq> Some (File n)" by simp
    qed
    from Cons.IH [OF w this ns] show ?thesis .
  qed
qed

lemma os_mkdir_frame:
  assumes "os_mkdir f p = Inr f'"
  shows "cwd f' = cwd f"
    and "nodes f' loc = Some (File n) \<Longrightarrow> nodes f loc = Some (File n)"
  using assms
  by (auto simp: os_mkdir_def split: if_splits sum.splits option.splits node.splits)

lemma mkdir_frame:
  "cwd (snd (mkdir f p parents exist_ok)) = cwd f \<and>
   (\<forall>loc n. nodes (snd (mkdir f p parents exist_ok)) loc = Some (File n) \<longrightarrow>
            nodes f loc = Some (File n))"
proof (induction f p parents exist_ok rule: mkdir.induct)
  case (1 f p parents exist_ok)
  show ?case
  proof (cases "os_mkdir f p")
    case (Inr f')
    then show ?thesis
      using os_mkdir_frame [OF Inr] by (simp add: mkdir.simps [of f p])
  next
    case (Inl e)
    show ?thesis
    proof (cases "e = FileNotFoundError \<and> \<not> (\<not> parents \<or> parent p = p)")
      case False
      with Inl show ?thesis
        by (auto simp: mkdir.simps [of f p])
    next
      case True
      then have e: "e = FileNotFoundError" and go: "\<not> (\<not> parents \<or> parent p = p)"
        by simp_all
      let ?r = "mkdir f (parent p) True True"
      note ih1 = 1(1) [OF Inl e go]
      show ?thesis
      proof (cases "fst ?r")
        case (Inl e')
        with \<open>os_mkdir f p = Inl e\<close> e go ih1 show ?thesis
          by (simp add: mkdir.simps [of f p] Let_def)
      next
        case (Inr v)
        note ih2 = 1(2) [OF \<open>os_mkdir f p = Inl e\<close> e go refl Inr]
        from \<open>os_mkdir f p = Inl e\<close> e go Inr
        have eq: "mkdir f p parents exist_ok = mkdir (snd ?r) p False exist_ok"
          by (simp add: mkdir.simps [of f p] Let_def)
        from ih1 ih2 show ?thesis
          unfolding eq by auto
      qed
    qed
  qed
qed

lemma mkdir_in_existing_parent:
  assumes par: "is_dir f (parent p)" and ne: "names p \<noteq> []"
    and plain: "''..'' \<notin> set (names p)"
    and nofile: "\<forall>n. nodes f (start_of f p @ names p) \<noteq> Some (File n)"
  shows "fst (mkdir f p False True) = Inr ()"
proof -
  from ne have split: "names p = butlast (names p) @ [last (names p)]" by simp
  from ne have pn: "names (parent p) = butlast (names p)" by (simp add: parent_def)
  have ps: "start_of f (parent p) = start_of f p" by (simp add: parent_def start_of_def)
  from par obtain loc where
    w: "walk f (start_of f p) (butlast (names p)) = Inr loc" and d: "nodes f loc = Some Dir"
    by (auto simp: is_dir_def lookup_def pn ps split: sum.splits)
  from plain have "''..'' \<notin> set (butlast (names p))"
    by (auto dest: in_set_butlastD)
  from walk_plain [OF w this] have loc: "loc = start_of f p @ butlast (names p)" .
  from plain ne have l: "last (names p) \<noteq> ''..''" by (metis last_in_set)
  from loc split have tgt: "loc @ [last (names p)] = start_of f p @ names p"
    by (metis append.assoc)
  show ?thesis
  proof (cases "nodes f (loc @ [last (names p)])")
    case None
    with ne w d l show ?thesis
      by (simp add: mkdir.simps [of f p] os_mkdir_def)
  next
    case (Some nd)
    with nofile tgt have dir: "nodes f (loc @ [last (names p)]) = Some Dir"
      by (cases nd) auto
    have "walk f (start_of f p) (names p) = Inr (loc @ [last (names p)])"
      using w d l by (subst split) (simp add: walk_append)
    with dir have "is_dir f p" by (simp add: is_dir_def lookup_def)
    from mkdir_existing [OF this] show ?thesis by simp
  qed
qed

lemma mkdir_parents_succeeds:
  assumes "nodes f (start_of f p) = Some Dir"
    and "''..'' \<notin> set (names p)"
    and "\<forall>k \<le> length (names p). \<forall>n. nodes f (start_of f p @ take k (names p)) \<noteq> Some (File n)"
  shows "fst (mkdir f p True True) = Inr ()"
  using assms
proof (induction "length (names p)" arbitrary: p)
  case 0
  then have "is_dir f p" by (simp add: is_dir_def lookup_def)
  from mkdir_existing [OF this] show ?case by simp
next
  case (Suc m)
  then have ne: "names p \<noteq> []" by auto
  then have pn: "names (parent p) = butlast (names p)" by (simp add: parent_def)
  have ps: "\<And>g. start_of g (parent p) = start_of g p" by (simp add: parent_def start_of_def)
  have pp: "parent p \<noteq> p"
  proof
    assume "parent p = p"
    then have "names (parent p) = names p" by simp
    with pn have "length (butlast (names p)) = length (names p)" by simp
    then have "length (names p) - 1 = length (names p)" by (simp only: length_butlast)
    moreover from ne have "length (names p) \<noteq> 0" by simp
    ultimately show False by arith
  qed
  have tk: "take k (butlast (names p)) = take k (names p)" if "k \<le> length (butlast (names p))" for k
    using that ne by (cases "names p" rule: rev_cases) simp_all
  have top: "\<forall>n. nodes f (start_of f p @ names p) \<noteq> Some (File n)"
    using Suc.prems(3) by (auto dest: spec [of _ "length (names p)"])
  let ?r = "mkdir f (parent p) True True"
  have ih: "fst ?r = Inr ()"
  proof (rule Suc.hyps(1))
    show "m = length (names (parent p))" using Suc.hyps(2) pn by simp
    show "nodes f (start_of f (parent p)) = Some Dir" using Suc.prems(1) by (simp add: ps)
    show "''..'' \<notin> set (names (parent p))"
      using Suc.prems(2) pn by (auto dest: in_set_butlastD)
    show "\<forall>k \<le> length (names (parent p)). \<forall>n.
            nodes f (start_of f (parent p) @ take k (names (parent p))) \<noteq> Some (File n)"
    proof (intro allI impI)
      fix k n assume k: "k \<le> length (names (parent p))"
      then have "k \<le> length (names p)" by (simp add: pn)
      with Suc.prems(3) have "nodes f (start_of f p @ take k (names p)) \<noteq> Some (File n)"
        by blast
      with k show "nodes f (start_of f (parent p) @ take k (names (parent p))) \<noteq> Some (File n)"
        by (simp add: pn ps tk)
    qed
  qed
  show ?case
  proof (cases "os_mkdir f p")
    case (Inr f')
    then show ?thesis by (simp add: mkdir.simps [of f p])
  next
    case (Inl e)
    show ?thesis
    proof (cases "e = FileNotFoundError")
      case True
      from mkdir_makes_dir [OF ih] have pd: "is_dir (snd ?r) (parent p)" .
      from mkdir_frame [of f "parent p" True True]
      have c: "cwd (snd ?r) = cwd f"
        and nf: "\<And>loc n. nodes (snd ?r) loc = Some (File n) \<Longrightarrow> nodes f loc = Some (File n)"
        by auto
      from c have st: "start_of (snd ?r) p = start_of f p" by (simp add: start_of_def)
      have "\<forall>n. nodes (snd ?r) (start_of (snd ?r) p @ names p) \<noteq> Some (File n)"
        using top nf st by auto
      from mkdir_in_existing_parent [OF pd ne Suc.prems(2) this]
      have "fst (mkdir (snd ?r) p False True) = Inr ()" .
      with Inl True pp ih show ?thesis
        by (simp add: mkdir.simps [of f p] Let_def)
    next
      case False
      from ne have split: "names p = butlast (names p) @ [last (names p)]" by simp
      from Suc.prems(2) have plain: "''..'' \<notin> set (butlast (names p))"
        by (auto dest: in_set_butlastD)
      from Suc.prems(2) ne have l: "last (names p) \<noteq> ''..''" by (metis last_in_set)
      have nofiles: "\<forall>k \<le> length (butlast (names p)). \<forall>n.
                       nodes f (start_of f p @ take k (butlast (names p))) \<noteq> Some (File n)"
      proof (intro allI impI)
        fix k n assume k: "k \<le> length (butlast (names p))"
        then have "k \<le> length (names p)" by simp
        with Suc.prems(3) have "nodes f (start_of f p @ take k (names p)) \<noteq> Some (File n)"
          by blast
        with k show "nodes f (start_of f p @ take k (butlast (names p))) \<noteq> Some (File n)"
          by (simp add: tk)
      qed
      show ?thesis
      proof (cases "walk f (start_of f p) (butlast (names p))")
        case (Inl e')
        from walk_error_without_files [OF Inl nofiles plain] Inl \<open>os_mkdir f p = Inl e\<close> ne False
        show ?thesis by (simp add: os_mkdir_def)
      next
        case (Inr loc)
        from walk_plain [OF Inr plain] have loc: "loc = start_of f p @ butlast (names p)" .
        with split have tgt: "loc @ [last (names p)] = start_of f p @ names p"
          by (metis append.assoc)
        from nofiles loc have "\<forall>n. nodes f loc \<noteq> Some (File n)"
          by (auto dest: spec [of _ "length (butlast (names p))"])
        with Inr \<open>os_mkdir f p = Inl e\<close> ne False l
        have d: "nodes f loc = Some Dir" and ex: "nodes f (loc @ [last (names p)]) \<noteq> None"
          by (auto simp: os_mkdir_def split: option.splits node.splits if_splits)
        from ex top tgt have dir: "nodes f (loc @ [last (names p)]) = Some Dir"
          by (cases "nodes f (loc @ [last (names p)])") (auto intro: node.exhaust)
        have "walk f (start_of f p) (names p) = Inr (loc @ [last (names p)])"
          using Inr d l by (subst split) (simp add: walk_append)
        with dir have "is_dir f p" by (simp add: is_dir_def lookup_def)
        from mkdir_existing [OF this] show ?thesis by simp
      qed
    qed
  qed
qed

section \<open>What \<open>export_solution\<close> does\<close>

lemma export_solution_mkdir_fails:
  assumes "mkdir (fs w) (Path output_dir) True True = (Inl e, fs1)"
  shows "export_solution env solution_name output_dir w = (Inl (OSError e), w\<lparr>fs := fs1\<rparr>)"
  using assms by (simp add: export_solution_def Let_def seq_def mkdir_io_def)

lemma export_solution_spawn_fails:
  assumes "mkdir (fs w) (Path output_dir) True True = (Inr u, fs1)"
    and "pac env (invoked w) fs1
           (''pac'' # export_command solution_name (export_target env solution_name output_dir w))
         = SpawnError e"
  shows "\<exists>x. fst (export_solution env solution_name output_dir w) = Inl x"
    and "fs (snd (export_solution env solution_name output_dir w)) = fs1"
    and "invoked (snd (export_solution env solution_name output_dir w)) =
           invoked w @
           [''pac'' # export_command solution_name (export_target env solution_name output_dir w)]"
  using assms
  by (simp_all add: export_solution_def Let_def seq_def mkdir_io_def now_def print_def
      try_finally_def run_pac_command_def raise_def export_target_def)

lemma export_solution_completed:
  assumes "mkdir (fs w) (Path output_dir) True True = (Inr u, fs1)"
    and "pac env (invoked w) fs1
           (''pac'' # export_command solution_name (export_target env solution_name output_dir w))
         = Completed r fs2"
  shows "fst (export_solution env solution_name output_dir w) =
           Inr (returncode r = 0 \<and>
                path_exists fs2 (export_target env solution_name output_dir w))"
    and "returncode r = 0 \<Longrightarrow>
         \<not> path_exists fs2 (export_target env solution_name output_dir w) \<Longrightarrow>
         FileNotFoundWarning (str_path (export_target env solution_name output_dir w))
           \<in> set (printed (snd (export_solution env solution_name output_dir w)))"
    and "returncode r \<noteq> 0 \<Longrightarrow>
         ExportFailed solution_name
           \<in> set (printed (snd (export_solution env solution_name output_dir w)))"
    and "fs (snd (export_solution env solution_name output_dir w)) = fs2"
    and "invoked (snd (export_solution env solution_name output_dir w)) =
           invoked w @
           [''pac'' # export_command solution_name (export_target env solution_name output_dir w)]"
    and "stdin (snd (export_solution env solution_name output_dir w)) = stdin w"
    and "clock_reads (snd (export_solution env solution_name output_dir w)) = Suc (clock_reads w)"
  using assms
  by (simp_all add: export_solution_def Let_def seq_def mkdir_io_def now_def print_def
      print_if_def try_finally_def run_pac_command_def raise_def return_def exists_io_def
      st_size_io_def export_target_def)

text \<open>
  Claim C1. \<open>export_solution\<close> returns \<open>True\<close> exactly when the output directory could be
  made, the export subprocess completed, its exit status is zero and the target path
  exists in the file system the subprocess left. When the subprocess completes with
  status zero and the target path does not exist, \<open>export_solution\<close> returns \<open>False\<close> and
  has printed the warning that the command completed but the file was not found.
\<close>

theorem export_success_iff:
  "(fst (export_solution env solution_name output_dir w) = Inr True \<longleftrightarrow>
      (case mkdir (fs w) (Path output_dir) True True of
         (Inl e, fs1) \<Rightarrow> False
       | (Inr u, fs1) \<Rightarrow>
           (case pac env (invoked w) fs1
                   (''pac'' # export_command solution_name
                               (export_target env solution_name output_dir w)) of
              SpawnError e \<Rightarrow> False
            | Completed r fs2 \<Rightarrow>
                returncode r = 0 \<and>
                path_exists fs2 (export_target env solution_name output_dir w)))) \<and>
   (\<forall>u fs1 r fs2.
      mkdir (fs w) (Path output_dir) True True = (Inr u, fs1) \<and>
      pac env (invoked w) fs1
          (''pac'' # export_command solution_name
                      (export_target env solution_name output_dir w)) = Completed r fs2 \<and>
      returncode r = 0 \<and>
      \<not> path_exists fs2 (export_target env solution_name output_dir w) \<longrightarrow>
      fst (export_solution env solution_name output_dir w) = Inr False \<and>
      FileNotFoundWarning (str_path (export_target env solution_name output_dir w))
        \<in> set (printed (snd (export_solution env solution_name output_dir w))))"
proof (intro conjI allI impI)
  show "fst (export_solution env solution_name output_dir w) = Inr True \<longleftrightarrow>
      (case mkdir (fs w) (Path output_dir) True True of
         (Inl e, fs1) \<Rightarrow> False
       | (Inr u, fs1) \<Rightarrow>
           (case pac env (invoked w) fs1
                   (''pac'' # export_command solution_name
                               (export_target env solution_name output_dir w)) of
              SpawnError e \<Rightarrow> False
            | Completed r fs2 \<Rightarrow>
                returncode r = 0 \<and>
                path_exists fs2 (export_target env solution_name output_dir w)))"
  proof (cases "mkdir (fs w) (Path output_dir) True True")
    case (Pair r0 fs1)
    show ?thesis
    proof (cases r0)
      case (Inl e)
      with Pair show ?thesis
        by (simp add: export_solution_mkdir_fails)
    next
      case (Inr u)
      show ?thesis
      proof (cases "pac env (invoked w) fs1
                   (''pac'' # export_command solution_name
                               (export_target env solution_name output_dir w))")
        case (SpawnError e)
        from export_solution_spawn_fails(1) [OF Pair [unfolded Inr] SpawnError]
        show ?thesis using Pair Inr SpawnError by auto
      next
        case (Completed r fs2)
        from export_solution_completed(1) [OF Pair [unfolded Inr] Completed]
        show ?thesis using Pair Inr Completed by simp
      qed
    qed
  qed
next
  fix u fs1 r fs2
  assume a: "mkdir (fs w) (Path output_dir) True True = (Inr u, fs1) \<and>
      pac env (invoked w) fs1
          (''pac'' # export_command solution_name
                      (export_target env solution_name output_dir w)) = Completed r fs2 \<and>
      returncode r = 0 \<and>
      \<not> path_exists fs2 (export_target env solution_name output_dir w)"
  then have m: "mkdir (fs w) (Path output_dir) True True = (Inr u, fs1)"
    and p: "pac env (invoked w) fs1
          (''pac'' # export_command solution_name
                      (export_target env solution_name output_dir w)) = Completed r fs2"
    and z: "returncode r = 0"
    and n: "\<not> path_exists fs2 (export_target env solution_name output_dir w)"
    by simp_all
  from export_solution_completed(1) [OF m p] z n
  show "fst (export_solution env solution_name output_dir w) = Inr False" by simp
  from export_solution_completed(2) [OF m p z n]
  show "FileNotFoundWarning (str_path (export_target env solution_name output_dir w))
        \<in> set (printed (snd (export_solution env solution_name output_dir w)))" .
qed

subsection \<open>The example environment\<close>

lemma example_strftime: "strftime (example_clock 0) = ''20240309_140500''"
  "strftime (example_clock 1) = ''20240309_140501''"
  by (simp_all add: strftime_def zero_pad_def str_nat.simps digit_char_def example_clock_def)

lemma example_target:
  assumes "clock_reads w = 0"
  shows "export_target example ''A'' ''./exports'' w =
           \<lparr>anchor = [], names = [''exports'', ''A_20240309_140500.zip'']\<rparr>"
    and "export_target example ''C'' ''./exports'' w =
           \<lparr>anchor = [], names = [''exports'', ''C_20240309_140500.zip'']\<rparr>"
    and "export_target example ''/tmp/A'' ''./exports'' w =
           \<lparr>anchor = ''/'', names = [''tmp'', ''A_20240309_140500.zip'']\<rparr>"
  using assms
  by (simp_all add: export_target_def export_filename_def example_strftime example_def
      example_env_def Path_def joinpath_def Let_def)

lemma example_mkdir:
  "mkdir example_fs (Path ''./exports'') True True = (Inr (), example_fs1)"
  by (simp add: mkdir.simps path_defs example_fs_def example_fs1_def Let_def)

lemma example_pac_export:
  "pac example h example_fs1
     (''pac'' # export_command ''A'' \<lparr>anchor = [], names = [''exports'', ''A_20240309_140500.zip'']\<rparr>) =
   Completed \<lparr>returncode = 0, stdout = [], stderr = []\<rparr>
     (write_file example_fs1 ''exports/A_20240309_140500.zip'' 2048)"
  "pac example h example_fs1
     (''pac'' # export_command ''C'' \<lparr>anchor = [], names = [''exports'', ''C_20240309_140500.zip'']\<rparr>) =
   Completed \<lparr>returncode = 0, stdout = [], stderr = []\<rparr> example_fs1"
  by (simp_all add: export_command_def str_path_def example_def example_env_def example_pac_def
      example_exports_def)

lemma example_paths:
  "path_exists (write_file example_fs1 ''exports/A_20240309_140500.zip'' 2048)
     \<lparr>anchor = [], names = [''exports'', ''A_20240309_140500.zip'']\<rparr>"
  "\<not> path_exists example_fs1 \<lparr>anchor = [], names = [''exports'', ''C_20240309_140500.zip'']\<rparr>"
  "str_path \<lparr>anchor = [], names = [''exports'', ''C_20240309_140500.zip'']\<rparr> =
     ''exports/C_20240309_140500.zip''"
  by (simp_all add: path_defs write_file_def example_fs1_def example_fs_def)

lemma example_exports_A:
  assumes "fs w = example_fs" and "clock_reads w = 0"
  shows "fst (export_solution example ''A'' ''./exports'' w) = Inr True"
    and "fs (snd (export_solution example ''A'' ''./exports'' w)) =
           write_file example_fs1 ''exports/A_20240309_140500.zip'' 2048"
proof -
  from assms(1) have m: "mkdir (fs w) (Path ''./exports'') True True = (Inr (), example_fs1)"
    by (simp add: example_mkdir)
  have p: "pac example (invoked w) example_fs1
             (''pac'' # export_command ''A'' (export_target example ''A'' ''./exports'' w)) =
           Completed \<lparr>returncode = 0, stdout = [], stderr = []\<rparr>
             (write_file example_fs1 ''exports/A_20240309_140500.zip'' 2048)"
    by (simp add: example_target [OF assms(2)] example_pac_export)
  from export_solution_completed(1) [OF m p]
  show "fst (export_solution example ''A'' ''./exports'' w) = Inr True"
    by (simp add: example_target [OF assms(2)] example_paths)
  from export_solution_completed(4) [OF m p]
  show "fs (snd (export_solution example ''A'' ''./exports'' w)) =
           write_file example_fs1 ''exports/A_20240309_140500.zip'' 2048" .
qed

theorem export_success_iff_witness:
  "fst (export_solution example ''A'' ''./exports'' (example_world [])) = Inr True \<and>
   fst (export_solution example ''C'' ''./exports'' (example_world [])) = Inr False \<and>
   FileNotFoundWarning ''exports/C_20240309_140500.zip''
     \<in> set (printed (snd (export_solution example ''C'' ''./exports'' (example_world []))))"
proof -
  let ?w = "example_world []"
  have c: "clock_reads ?w = 0" and f: "fs ?w = example_fs"
    by (simp_all add: example_world_def)
  have m: "mkdir (fs ?w) (Path ''./exports'') True True = (Inr (), example_fs1)"
    by (simp add: f example_mkdir)
  from export_success_iff [of example "''A''" "''./exports''" ?w]
  have "fst (export_solution example ''A'' ''./exports'' ?w) = Inr True"
    by (simp add: m example_target [OF c] example_pac_export example_paths)
  moreover
  from export_success_iff [of example "''C''" "''./exports''" ?w]
  have "fst (export_solution example ''C'' ''./exports'' ?w) = Inr False \<and>
        FileNotFoundWarning ''exports/C_20240309_140500.zip''
          \<in> set (printed (snd (export_solution example ''C'' ''./exports'' ?w)))"
    by (simp add: m example_target [OF c] example_pac_export example_paths)
  ultimately show ?thesis by simp
qed

text \<open>
  What \<open>export_solution\<close> does for a solution name without \<open>/\<close>, with POSIX paths.
  The timestamp is eight digits, an underscore and six digits; the target path is the
  output directory followed by the one name \<open>{name}_{timestamp}.zip\<close>; making the output
  directory leaves the file system as it is when the directory exists, leaves the
  directory in place whenever it returns without error, and returns without error when
  the path starts at a directory, has no \<open>..\<close> and meets no file on its way (missing
  parents are made); and the export is started only after the directory was made, on the
  file system that this left, with the target path as its \<open>--path\<close> argument.
\<close>

lemma export_target_and_directory:
  fixes env :: environment and w :: world and solution_name output_dir :: string
  defines "stamp \<equiv> strftime (clock env (clock_reads w))"
  defines "target \<equiv> export_target env solution_name output_dir w"
  defines "made \<equiv> mkdir (fs w) (Path output_dir) True True"
  defines "after \<equiv> snd (export_solution env solution_name output_dir w)"
  assumes "CHR ''/'' \<notin> set solution_name" and "valid_datetime (clock env (clock_reads w))"
  shows "length stamp = 15 \<and> list_all is_digit (take 8 stamp) \<and> stamp ! 8 = CHR ''_'' \<and>
         list_all is_digit (drop 9 stamp) \<and>
         target = \<lparr>anchor = anchor (Path output_dir),
                   names = names (Path output_dir) @ [solution_name @ ''_'' @ stamp @ ''.zip'']\<rparr> \<and>
         (is_dir (fs w) (Path output_dir) \<longrightarrow> made = (Inr (), fs w)) \<and>
         (\<forall>u. fst made = Inr u \<longrightarrow> is_dir (snd made) (Path output_dir)) \<and>
         (nodes (fs w) (start_of (fs w) (Path output_dir)) = Some Dir \<and>
          ''..'' \<notin> set (names (Path output_dir)) \<and>
          (\<forall>k \<le> length (names (Path output_dir)). \<forall>n.
             nodes (fs w) (start_of (fs w) (Path output_dir) @ take k (names (Path output_dir)))
               \<noteq> Some (File n)) \<longrightarrow>
          fst made = Inr ()) \<and>
         (case made of
            (Inl e, fs1) \<Rightarrow>
              fst (export_solution env solution_name output_dir w) = Inl (OSError e) \<and>
              invoked after = invoked w
          | (Inr u, fs1) \<Rightarrow>
              invoked after = invoked w @ [''pac'' # export_command solution_name target] \<and>
              fs after =
                (case pac env (invoked w) fs1 (''pac'' # export_command solution_name target) of
                   Completed r fs2 \<Rightarrow> fs2
                 | SpawnError e \<Rightarrow> fs1))"
proof -
  note shape = strftime_shape [OF assms(6)]
  have t: "target = \<lparr>anchor = anchor (Path output_dir),
                   names = names (Path output_dir) @ [solution_name @ ''_'' @ stamp @ ''.zip'']\<rparr>"
    unfolding target_def stamp_def
    by (simp add: export_target_inside [OF assms(5)] export_filename_def)
  have e: "is_dir (fs w) (Path output_dir) \<longrightarrow> made = (Inr (), fs w)"
    unfolding made_def by (simp add: mkdir_existing)
  have d: "\<forall>u. fst made = Inr u \<longrightarrow> is_dir (snd made) (Path output_dir)"
    unfolding made_def by (simp add: mkdir_makes_dir)
  have r: "nodes (fs w) (start_of (fs w) (Path output_dir)) = Some Dir \<and>
          ''..'' \<notin> set (names (Path output_dir)) \<and>
          (\<forall>k \<le> length (names (Path output_dir)). \<forall>n.
             nodes (fs w) (start_of (fs w) (Path output_dir) @ take k (names (Path output_dir)))
               \<noteq> Some (File n)) \<longrightarrow>
          fst made = Inr ()"
    unfolding made_def by (simp add: mkdir_parents_succeeds)
  have o: "case made of
            (Inl e, fs1) \<Rightarrow>
              fst (export_solution env solution_name output_dir w) = Inl (OSError e) \<and>
              invoked after = invoked w
          | (Inr u, fs1) \<Rightarrow>
              invoked after = invoked w @ [''pac'' # export_command solution_name target] \<and>
              fs after =
                (case pac env (invoked w) fs1 (''pac'' # export_command solution_name target) of
                   Completed r fs2 \<Rightarrow> fs2
                 | SpawnError e \<Rightarrow> fs1)"
  proof (cases made)
    case (Pair r0 fs1)
    show ?thesis
    proof (cases r0)
      case (Inl e)
      with Pair have "mkdir (fs w) (Path output_dir) True True = (Inl e, fs1)"
        by (simp add: made_def)
      from export_solution_mkdir_fails [OF this, of env solution_name] Pair Inl
      show ?thesis by (simp add: after_def)
    next
      case (Inr u)
      with Pair have m: "mkdir (fs w) (Path output_dir) True True = (Inr u, fs1)"
        by (simp add: made_def)
      show ?thesis
      proof (cases "pac env (invoked w) fs1 (''pac'' # export_command solution_name target)")
        case (SpawnError e)
        from export_solution_spawn_fails(2,3) [OF m SpawnError [unfolded target_def]]
          Pair Inr SpawnError
        show ?thesis by (simp add: after_def target_def)
      next
        case (Completed r fs2)
        from export_solution_completed(4,5) [OF m Completed [unfolded target_def]]
          Pair Inr Completed
        show ?thesis by (simp add: after_def target_def)
      qed
    qed
  qed
  from shape t e d r o show ?thesis
    unfolding stamp_def by blast
qed

lemma export_target_and_directory_example:
  "str_path (export_target example ''A'' ''./exports'' (example_world [])) =
     ''exports/A_20240309_140500.zip'' \<and>
   fst (mkdir example_fs (Path ''./exports'') True True) = Inr () \<and>
   is_dir (snd (mkdir example_fs (Path ''./exports'') True True)) (Path ''./exports'') \<and>
   mkdir example_fs1 (Path ''./exports'') True True = (Inr (), example_fs1) \<and>
   invoked (snd (export_solution example ''A'' ''./exports'' (example_world []))) =
     [[''pac'', ''solution'', ''export'', ''--name'', ''A'', ''--path'',
       ''exports/A_20240309_140500.zip'', ''--managed'', ''false'', ''--overwrite'']]"
proof -
  let ?w = "example_world []"
  let ?v = "(example_world [])\<lparr>fs := example_fs1\<rparr>"
  have c: "clock_reads ?w = 0" "clock_reads ?v = 0" and f: "fs ?w = example_fs" "fs ?v = example_fs1"
    and i: "invoked ?w = []"
    by (simp_all add: example_world_def)
  have a: "CHR ''/'' \<notin> set ''A''" by simp
  have v: "valid_datetime (clock example (clock_reads ?w))"
    "valid_datetime (clock example (clock_reads ?v))"
    by (simp_all add: c example_def example_env_def example_clock_def valid_datetime_def)
  have p: "Path ''./exports'' = \<lparr>anchor = [], names = [''exports'']\<rparr>"
    by (simp add: path_defs)
  have clear: "nodes example_fs (start_of example_fs (Path ''./exports'')) = Some Dir \<and>
          ''..'' \<notin> set (names (Path ''./exports'')) \<and>
          (\<forall>k \<le> length (names (Path ''./exports'')). \<forall>n.
             nodes example_fs (start_of example_fs (Path ''./exports'') @
                               take k (names (Path ''./exports'')))
               \<noteq> Some (File n))"
    unfolding p by (auto simp: path_defs example_fs_def le_Suc_eq)
  have there: "is_dir example_fs1 (Path ''./exports'')"
    unfolding p by (simp add: path_defs example_fs1_def example_fs_def)
  have s: "str_path \<lparr>anchor = [], names = [''exports'', ''A_20240309_140500.zip'']\<rparr> =
             ''exports/A_20240309_140500.zip''"
    by (simp add: str_path_def)
  have cmd: "export_command ''A'' \<lparr>anchor = [], names = [''exports'', ''A_20240309_140500.zip'']\<rparr> =
    [''solution'', ''export'', ''--name'', ''A'', ''--path'',
       ''exports/A_20240309_140500.zip'', ''--managed'', ''false'', ''--overwrite'']"
    by (simp add: export_command_def s)
  from export_target_and_directory [OF a v(1), of "''./exports''"] clear
  have "fst (mkdir example_fs (Path ''./exports'') True True) = Inr () \<and>
        is_dir (snd (mkdir example_fs (Path ''./exports'') True True)) (Path ''./exports'') \<and>
        invoked (snd (export_solution example ''A'' ''./exports'' ?w)) =
          [''pac'' # export_command ''A''
             \<lparr>anchor = [], names = [''exports'', ''A_20240309_140500.zip'']\<rparr>]"
    by (simp add: f i example_target [OF c(1)] example_mkdir)
  moreover
  from export_target_and_directory [OF a v(2), of "''./exports''"] there
  have "mkdir example_fs1 (Path ''./exports'') True True = (Inr (), example_fs1)"
    by (simp add: f)
  ultimately show ?thesis
    by (simp add: example_target [OF c(1)] s cmd)
qed

section \<open>The exit status after a failed export\<close>

lemma main_export_fails:
  assumes "choose_solution env w = (Inr solution_name, w1)"
    and "export_solution env solution_name ''./exports'' w1 = (Inr False, w2)"
  shows "main env w = (Inl (SystemExit 1), w2)"
  using assms by (simp add: main_def seq_def raise_def)

lemma main_calls_another:
  assumes "another_calls env w wk"
  shows "main env w = export_another_solution env wk"
  using assms
proof (induction rule: another_calls.induct)
  case (from_main solution_name w1 w2 line w3)
  then show ?case
    by (simp add: main_def seq_def print_def Let_def)
next
  case (from_round wk wk')
  then show ?case
    by (simp add: export_another_solution.simps [of env wk])
qed

lemma another_export_fails:
  assumes "choose_another env w = (Inr (Some solution_name), w1)"
    and "export_solution env solution_name ''./exports'' w1 = (Inr False, w2)"
  shows "export_another_solution env w = (Inr (), w2)"
proof -
  from assms have "another_round env w = (Inr False, w2)"
    by (simp add: another_round_def seq_def return_def)
  then show ?thesis
    by (simp add: export_another_solution.simps [of env w])
qed

lemma another_failure_exit_status:
  assumes "another_calls env w wk"
    and "choose_another env wk = (Inr (Some solution_name), w1)"
    and "export_solution env solution_name ''./exports'' w1 = (Inr False, w2)"
  shows "exit_status env w = (0, w2)"
  using main_calls_another [OF assms(1)] another_export_fails [OF assms(2,3)]
  by (simp add: exit_status_def)

text \<open>
  Claim C5, as amended. When the export that \<open>main\<close> starts reports failure, the program
  ends with exit status 1. When an export started by \<open>export_another_solution\<close> reports
  failure, in whichever of its calls, the function returns, as it does on every other
  failure, and the program ends with exit status 0.
\<close>

theorem export_failure_exit_status:
  "(\<forall>solution_name w1 w2.
      choose_solution env w = (Inr solution_name, w1) \<and>
      export_solution env solution_name ''./exports'' w1 = (Inr False, w2) \<longrightarrow>
      exit_status env w = (1, w2)) \<and>
   (\<forall>wk solution_name w1 w2.
      another_calls env w wk \<and>
      choose_another env wk = (Inr (Some solution_name), w1) \<and>
      export_solution env solution_name ''./exports'' w1 = (Inr False, w2) \<longrightarrow>
      export_another_solution env wk = (Inr (), w2) \<and> exit_status env w = (0, w2))"
proof (intro conjI allI impI)
  fix solution_name w1 w2
  assume "choose_solution env w = (Inr solution_name, w1) \<and>
      export_solution env solution_name ''./exports'' w1 = (Inr False, w2)"
  then have "main env w = (Inl (SystemExit 1), w2)"
    by (simp add: main_export_fails)
  then show "exit_status env w = (1, w2)"
    by (simp add: exit_status_def)
next
  fix wk solution_name w1 w2
  assume a: "another_calls env w wk \<and>
      choose_another env wk = (Inr (Some solution_name), w1) \<and>
      export_solution env solution_name ''./exports'' w1 = (Inr False, w2)"
  then have c: "another_calls env w wk"
    and s: "choose_another env wk = (Inr (Some solution_name), w1)"
    and e: "export_solution env solution_name ''./exports'' w1 = (Inr False, w2)"
    by simp_all
  from another_export_fails [OF s e]
  show "export_another_solution env wk = (Inr (), w2)" .
  from another_failure_exit_status [OF c s e]
  show "exit_status env w = (0, w2)" .
qed

subsection \<open>Two runs in the example environment\<close>

lemma example_check_pac_installed:
  "check_pac_installed example w =
     (Inr True, w\<lparr>printed := printed w @ [CheckingForPac, FoundPacVersion ''Version: 1.0''],
                  invoked := invoked w @ [[''pac'', ''help'']]\<rparr>)"
  by (simp add: check_pac_installed_def io_defs example_def example_env_def example_pac_def
      string_defs Let_def)

lemma example_has_active_profile:
  "has_active_profile \<lparr>returncode = 0, stdout = example_profiles, stderr = []\<rparr>"
  unfolding example_profiles_def by code_simp

lemma example_ensure_authenticated:
  assumes "stdin w = ''y'' # rest"
  shows "ensure_authenticated example w =
     (Inr True, w\<lparr>stdin := rest,
                  printed := printed w @ [CheckingAuth, FoundProfile,
                                          CurrentProfiles example_profiles,
                                          Prompt UseExistingProfile],
                  invoked := invoked w @ [[''pac'', ''auth'', ''list'']]\<rparr>)"
proof -
  have y: "lower (strip ''y'') = ''y''" by code_simp
  from assms show ?thesis
    using example_has_active_profile
    by (simp add: ensure_authenticated_def io_defs example_def example_env_def example_pac_def
        Let_def y)
qed


lemma example_display:
  "display_columns m ''A a 1'' =
     (\<lparr>row_unique_name = ''A'', row_friendly_name = ''a'', row_version = ''1''\<rparr>, Some [])"
  "display_columns m ''B b 2'' =
     (\<lparr>row_unique_name = ''B'', row_friendly_name = ''b'', row_version = ''2''\<rparr>, Some [])"
  by (simp_all add: display_columns_def columns_of_parts_def string_defs is_bool_literal_def
      truncate_friendly_def Let_def)

lemma example_list_solutions:
  "list_solutions example w =
     (Inr [\<lparr>unique_name = ''A'', raw_line = ''A a 1''\<rparr>, \<lparr>unique_name = ''B'', raw_line = ''B b 2''\<rparr>],
      w\<lparr>printed := printed w @ [FetchingSolutions, TableHeader, TableRow 1 ''A'' ''a'' ''1'',
                                 TableRow 2 ''B'' ''b'' ''2'', TableFooter 2],
        invoked := invoked w @ [[''pac'', ''solution'', ''list'']]\<rparr>)"
  by (simp add: list_solutions_def io_defs example_def example_env_def example_pac_def Let_def
      example_listing_parsed example_display)

lemma example_resolve:
  "resolve_selection
     [\<lparr>unique_name = ''A'', raw_line = ''A a 1''\<rparr>, \<lparr>unique_name = ''B'', raw_line = ''B b 2''\<rparr>]
     ''1'' = Chosen ''A''"
  "resolve_selection
     [\<lparr>unique_name = ''A'', raw_line = ''A a 1''\<rparr>, \<lparr>unique_name = ''B'', raw_line = ''B b 2''\<rparr>]
     ''2'' = Chosen ''B''"
  by (simp_all add: resolve_selection_def py_int_def parse_unsigned_def is_digit_def
      digit_val_def int_max_str_digits_def string_defs)

lemma example_answers:
  "strip ''1'' = ''1''" "strip ''2'' = ''2''" "lower ''1'' \<noteq> ''q''" "lower ''2'' \<noteq> ''q''"
  "lower (strip ''y'') = ''y''"
  by code_simp+

lemma example_choose_solution:
  assumes "stdin w = ''y'' # s # rest" and "s = ''1'' \<or> s = ''2''"
  shows "fst (choose_solution example w) = Inr (if s = ''1'' then ''A'' else ''B'')"
    and "stdin (snd (choose_solution example w)) = rest"
    and "fs (snd (choose_solution example w)) = fs w"
    and "clock_reads (snd (choose_solution example w)) = clock_reads w"
  using assms
  by (auto simp: choose_solution_def seq_def print_def return_def raise_def input_line_def
      example_check_pac_installed example_ensure_authenticated example_list_solutions
      example_resolve example_answers)

lemma example_choose_another:
  assumes "stdin w = ''2'' # rest"
  shows "fst (choose_another example w) = Inr (Some ''B'')"
    and "stdin (snd (choose_another example w)) = rest"
    and "fs (snd (choose_another example w)) = fs w"
    and "clock_reads (snd (choose_another example w)) = clock_reads w"
  using assms
  by (simp_all add: choose_another_def seq_def print_def return_def input_line_def
      example_list_solutions example_resolve example_answers)

lemma example_pac_export_B:
  "pac example h f (''pac'' # export_command ''B'' t) =
     Completed \<lparr>returncode = 1, stdout = [], stderr = []\<rparr> f"
  by (simp add: export_command_def example_def example_env_def example_pac_def
      example_exports_def)

lemma example_exports_B:
  assumes "mkdir (fs w) (Path ''./exports'') True True = (Inr u, f1)"
  shows "fst (export_solution example ''B'' ''./exports'' w) = Inr False"
    and "ExportFailed ''B'' \<in> set (printed (snd (export_solution example ''B'' ''./exports'' w)))"
  using export_solution_completed(1,3) [OF assms example_pac_export_B]
  by simp_all

lemma example_exports_A_frame:
  assumes "fs w = example_fs" and "clock_reads w = 0"
  shows "stdin (snd (export_solution example ''A'' ''./exports'' w)) = stdin w"
proof -
  from assms(1) have m: "mkdir (fs w) (Path ''./exports'') True True = (Inr (), example_fs1)"
    by (simp add: example_mkdir)
  have p: "pac example (invoked w) example_fs1
             (''pac'' # export_command ''A'' (export_target example ''A'' ''./exports'' w)) =
           Completed \<lparr>returncode = 0, stdout = [], stderr = []\<rparr>
             (write_file example_fs1 ''exports/A_20240309_140500.zip'' 2048)"
    by (simp add: example_target [OF assms(2)] example_pac_export)
  from export_solution_completed(6) [OF m p] show ?thesis .
qed

lemma example_exports_dir_exists:
  "is_dir (write_file example_fs1 ''exports/A_20240309_140500.zip'' 2048) (Path ''./exports'')"
  by (simp add: path_defs write_file_def example_fs1_def example_fs_def)

lemma example_first_export_fails:
  "\<exists>w1 w2. choose_solution example (example_world [''y'', ''2'']) = (Inr ''B'', w1) \<and>
           export_solution example ''B'' ''./exports'' w1 = (Inr False, w2)"
proof -
  let ?w0 = "example_world [''y'', ''2'']"
  define w1 where "w1 = snd (choose_solution example ?w0)"
  define w2 where "w2 = snd (export_solution example ''B'' ''./exports'' w1)"
  have s0: "stdin ?w0 = ''y'' # ''2'' # []" and f0: "fs ?w0 = example_fs"
    by (simp_all add: example_world_def)
  have sel: "''2'' = ''1'' \<or> ''2'' = ''2''" by simp
  from example_choose_solution(1) [OF s0 sel]
  have c: "choose_solution example ?w0 = (Inr ''B'', w1)"
    by (simp add: w1_def prod_eq_iff)
  from example_choose_solution(3) [OF s0 sel] f0 have f1: "fs w1 = example_fs"
    by (simp add: w1_def)
  then have "mkdir (fs w1) (Path ''./exports'') True True = (Inr (), example_fs1)"
    by (simp add: example_mkdir)
  from example_exports_B(1) [OF this]
  have "export_solution example ''B'' ''./exports'' w1 = (Inr False, w2)"
    by (simp add: w2_def prod_eq_iff)
  with c show ?thesis by blast
qed

lemma example_second_export_fails:
  "\<exists>wk w1 w2. another_calls example (example_world [''y'', ''1'', ''y'', ''2'']) wk \<and>
              choose_another example wk = (Inr (Some ''B''), w1) \<and>
              export_solution example ''B'' ''./exports'' w1 = (Inr False, w2) \<and>
              ExportFailed ''B'' \<in> set (printed w2)"
proof -
  let ?w0 = "example_world [''y'', ''1'', ''y'', ''2'']"
  let ?fs2 = "write_file example_fs1 ''exports/A_20240309_140500.zip'' 2048"
  define w1 where "w1 = snd (choose_solution example ?w0)"
  define w2 where "w2 = snd (export_solution example ''A'' ''./exports'' w1)"
  define w3 where "w3 = snd (input_line ExportAnother (w2\<lparr>printed := printed w2 @ [ExportComplete]\<rparr>))"
  define w4 where "w4 = snd (choose_another example w3)"
  define w5 where "w5 = snd (export_solution example ''B'' ''./exports'' w4)"
  have s0: "stdin ?w0 = ''y'' # ''1'' # [''y'', ''2'']" and f0: "fs ?w0 = example_fs"
    and c0: "clock_reads ?w0 = 0"
    by (simp_all add: example_world_def)
  have sel: "''1'' = ''1'' \<or> ''1'' = ''2''" by simp
  from example_choose_solution(1) [OF s0 sel]
  have step1: "choose_solution example ?w0 = (Inr ''A'', w1)"
    by (simp add: w1_def prod_eq_iff)
  from example_choose_solution(2,3,4) [OF s0 sel] f0 c0
  have s1: "stdin w1 = [''y'', ''2'']" and f1: "fs w1 = example_fs" and c1: "clock_reads w1 = 0"
    by (simp_all add: w1_def)
  from example_exports_A(1) [OF f1 c1]
  have step2: "export_solution example ''A'' ''./exports'' w1 = (Inr True, w2)"
    by (simp add: w2_def prod_eq_iff)
  from example_exports_A(2) [OF f1 c1] example_exports_A_frame [OF f1 c1] s1
  have f2: "fs w2 = ?fs2" and s2: "stdin w2 = [''y'', ''2'']"
    by (simp_all add: w2_def)
  from s2 have step3: "input_line ExportAnother (w2\<lparr>printed := printed w2 @ [ExportComplete]\<rparr>) =
                         (Inr ''y'', w3)"
    and s3: "stdin w3 = ''2'' # []" and f3: "fs w3 = ?fs2"
    by (simp_all add: w3_def input_line_def f2)
  have yes: "lower (strip ''y'') \<in> set [''y'', ''yes'']"
    by (simp add: example_answers)
  from another_calls.from_main [OF step1 step2 step3 yes]
  have calls: "another_calls example ?w0 w3" .
  from example_choose_another(1) [OF s3]
  have step4: "choose_another example w3 = (Inr (Some ''B''), w4)"
    by (simp add: w4_def prod_eq_iff)
  from example_choose_another(3) [OF s3] f3 have f4: "fs w4 = ?fs2"
    by (simp add: w4_def)
  from mkdir_existing [OF example_exports_dir_exists] f4
  have m: "mkdir (fs w4) (Path ''./exports'') True True = (Inr (), ?fs2)"
    by simp
  from example_exports_B(1) [OF m]
  have step5: "export_solution example ''B'' ''./exports'' w4 = (Inr False, w5)"
    by (simp add: w5_def prod_eq_iff)
  from example_exports_B(2) [OF m] have "ExportFailed ''B'' \<in> set (printed w5)"
    by (simp add: w5_def)
  with calls step4 step5 show ?thesis by blast
qed

theorem export_failure_exit_status_witness:
  "fst (exit_status example (example_world [''y'', ''2''])) = 1 \<and>
   fst (exit_status example (example_world [''y'', ''1'', ''y'', ''2''])) = 0"
proof -
  from example_first_export_fails obtain w1 w2
    where "choose_solution example (example_world [''y'', ''2'']) = (Inr ''B'', w1) \<and>
           export_solution example ''B'' ''./exports'' w1 = (Inr False, w2)"
    by blast
  with export_failure_exit_status [of example "example_world [''y'', ''2'']"]
  have "exit_status example (example_world [''y'', ''2'']) = (1, w2)"
    by blast
  moreover
  from example_second_export_fails obtain wk v1 v2
    where "another_calls example (example_world [''y'', ''1'', ''y'', ''2'']) wk \<and>
           choose_another example wk = (Inr (Some ''B''), v1) \<and>
           export_solution example ''B'' ''./exports'' v1 = (Inr False, v2)"
    by blast
  with export_failure_exit_status [of example "example_world [''y'', ''1'', ''y'', ''2'']"]
  have "exit_status example (example_world [''y'', ''1'', ''y'', ''2'']) = (0, v2)"
    by blast
  ultimately show ?thesis by simp
qed

text \<open>
  The claim as first stated promises exit status 1 in both flows. It fails on the run in
  which the user keeps the profile, exports solution 1, asks for another export and
  chooses solution 2, whose export the tool refuses: the failure is printed, and the
  program ends with exit status 0.
\<close>

theorem another_export_failure_counterexample:
  "fst (exit_status example (example_world [''y'', ''1'', ''y'', ''2''])) = 0 \<and>
   ExportFailed ''B''
     \<in> set (printed (snd (exit_status example (example_world [''y'', ''1'', ''y'', ''2'']))))"
proof -
  from example_second_export_fails obtain wk w1 w2
    where c: "another_calls example (example_world [''y'', ''1'', ''y'', ''2'']) wk"
      and s: "choose_another example wk = (Inr (Some ''B''), w1)"
      and e: "export_solution example ''B'' ''./exports'' w1 = (Inr False, w2)"
      and p: "ExportFailed ''B'' \<in> set (printed w2)"
    by blast
  from another_failure_exit_status [OF c s e] p show ?thesis by simp
qed

section \<open>Resolving the selection\<close>

subsection \<open>What \<open>int\<close> reads\<close>

lemmas py_int_defs = py_int_def parse_unsigned_def is_digit_def digit_val_def
  int_max_str_digits_def

lemma digit_val_digit_char: "d < 10 \<Longrightarrow> digit_val (digit_char d) = d"
proof -
  assume "d < 10"
  then have "d = 0 \<or> d = 1 \<or> d = 2 \<or> d = 3 \<or> d = 4 \<or> d = 5 \<or> d = 6 \<or> d = 7 \<or>
             d = 8 \<or> d = 9"
    by arith
  then show ?thesis
    by (elim disjE) (simp_all add: digit_val_def digit_char_def)
qed

lemma parse_digits_of_digits:
  "list_all is_digit ds \<Longrightarrow>
   parse_digits acc ds = Some (foldl (\<lambda>a c. 10 * a + digit_val c) acc ds)"
  by (induction acc ds rule: parse_digits.induct) simp_all

lemma str_nat_value: "foldl (\<lambda>a c. 10 * a + digit_val c) 0 (str_nat n) = n"
proof (induction n rule: str_nat.induct)
  case (1 n)
  show ?case
  proof (cases "n < 10")
    case True
    then show ?thesis by (simp add: str_nat.simps [of n] digit_val_digit_char)
  next
    case False
    with 1 show ?thesis by (simp add: str_nat.simps [of n] digit_val_digit_char)
  qed
qed

lemma digit_is_plain:
  assumes "is_digit c"
  shows "\<not> isspace c" and "c \<noteq> CHR ''-''" and "c \<noteq> CHR ''+''"
  using assms by (auto simp: is_digit_def isspace_def)

lemma strip_unpadded:
  assumes "s \<noteq> []" and "\<not> isspace (hd s)" and "\<not> isspace (last s)"
  shows "strip s = s"
proof -
  from assms(1,2) have a: "dropWhile isspace s = s"
    by (cases s) simp_all
  from assms(1,3) have "dropWhile isspace (rev s) = rev s"
    by (cases "rev s") (simp_all add: hd_rev [symmetric])
  with a show ?thesis by (simp add: strip_def)
qed

lemma py_int_of_decimal:
  assumes "length (str_nat n) \<le> int_max_str_digits"
  shows "py_int (str_nat n) = Some (int n)"
proof -
  have digits: "list_all is_digit (str_nat n)" by (rule str_nat_digits)
  have ne: "str_nat n \<noteq> []" by (rule str_nat_nonempty)
  then obtain c cs where cs: "str_nat n = c # cs" by (cases "str_nat n") auto
  with digits have c: "is_digit c" and rest: "list_all is_digit cs" by simp_all
  from digits ne have "is_digit (hd (str_nat n))" "is_digit (last (str_nat n))"
    by (auto simp: list_all_iff)
  then have "strip (str_nat n) = str_nat n"
    using ne by (intro strip_unpadded) (auto dest: digit_is_plain(1))
  moreover from digits have "filter is_digit (str_nat n) = str_nat n"
    by (simp add: list_all_iff)
  moreover have "parse_unsigned (c # cs) = Some n"
    using c parse_digits_of_digits [OF rest, of "digit_val c"] str_nat_value [of n]
    by (simp add: parse_unsigned_def cs)
  ultimately show ?thesis
    using assms c by (simp add: py_int_def cs digit_is_plain)
qed

lemma py_int_too_long:
  assumes "length (filter is_digit (strip s)) > int_max_str_digits"
  shows "py_int s = None"
  using assms by (cases "strip s") (simp_all add: py_int_def)

subsection \<open>The selection in the two flows\<close>

text \<open>
  What \<open>export_another_solution\<close> and \<open>main\<close> make of the line read at the selection
  prompt, once the solutions are listed: the outcome of the selection, and the last
  message printed.
\<close>

lemma choose_another_of_line:
  assumes "list_solutions env w = (Inr solutions, w1)" and "solutions \<noteq> []"
    and "stdin w1 = line # rest"
  shows "(fst (choose_another env w), last (printed (snd (choose_another env w)))) =
           (if lower (strip line) = ''q'' then (Inr None, Goodbye)
            else case py_int (strip line) of
                   Some i \<Rightarrow>
                     if 1 \<le> i \<and> i \<le> int (length solutions)
                     then (Inr (Some (unique_name (solutions ! (nat i - 1)))),
                           Prompt SelectSolution)
                     else (Inr None, InvalidSelection (length solutions))
                 | None \<Rightarrow>
                     if strip line \<noteq> []
                     then (Inr (Some (strip line)), UsingDirectName (strip line))
                     else (Inr None, NameRequired))"
  using assms
  by (auto simp: choose_another_def seq_def print_def input_line_def return_def Let_def
      resolve_selection_def nat_diff_distrib split: option.splits)

lemma choose_solution_of_line:
  assumes "check_pac_installed env (w\<lparr>printed := printed w @ [Banner]\<rparr>) = (Inr True, wa)"
    and "ensure_authenticated env wa = (Inr True, wb)"
    and "list_solutions env wb = (Inr solutions, w1)" and "solutions \<noteq> []"
    and "stdin w1 = line # rest"
  shows "(fst (choose_solution env w), last (printed (snd (choose_solution env w)))) =
           (if lower (strip line) = ''q'' then (Inl (SystemExit 0), Goodbye)
            else case py_int (strip line) of
                   Some i \<Rightarrow>
                     if 1 \<le> i \<and> i \<le> int (length solutions)
                     then (Inr (unique_name (solutions ! (nat i - 1))), Prompt SelectSolution)
                     else (Inl (SystemExit 1), InvalidSelection (length solutions))
                 | None \<Rightarrow>
                     if strip line \<noteq> []
                     then (Inr (strip line), UsingDirectName (strip line))
                     else (Inl (SystemExit 1), NameRequired))"
  using assms
  by (auto simp: choose_solution_def seq_def print_def input_line_def return_def raise_def
      Let_def resolve_selection_def nat_diff_distrib split: option.splits)

text \<open>
  Claim C2, as amended. The line read at the selection prompt is stripped of surrounding
  whitespace, and \<open>q\<close> in either case quits before anything is resolved. For any other
  stripped input and a non-empty list of solutions: an input that \<open>int\<close> reads as a number
  from 1 to the length of the list resolves to the unique name of the record at that
  position; a number outside that range fails with the message naming the range, the
  input not being taken as a name; an input that \<open>int\<close> rejects is itself the resolved name
  when it is not empty, and fails when it is empty. A failure ends
  \<open>export_another_solution\<close> and ends \<open>main\<close> with exit status 1; quitting ends \<open>main\<close> with
  exit status 0. \<open>int\<close> reads the decimal numeral of every number, up to its limit on the
  number of digits.
\<close>

theorem selection_of_input_line:
  "(\<forall>w w1 rest.
      list_solutions env w = (Inr solutions, w1) \<and> solutions \<noteq> [] \<and> stdin w1 = line # rest \<longrightarrow>
      (fst (choose_another env w), last (printed (snd (choose_another env w)))) =
        (if lower (strip line) = ''q'' then (Inr None, Goodbye)
         else case py_int (strip line) of
                Some i \<Rightarrow>
                  if 1 \<le> i \<and> i \<le> int (length solutions)
                  then (Inr (Some (unique_name (solutions ! (nat i - 1)))),
                        Prompt SelectSolution)
                  else (Inr None, InvalidSelection (length solutions))
              | None \<Rightarrow>
                  if strip line \<noteq> []
                  then (Inr (Some (strip line)), UsingDirectName (strip line))
                  else (Inr None, NameRequired))) \<and>
   (\<forall>w wa wb w1 rest.
      check_pac_installed env (w\<lparr>printed := printed w @ [Banner]\<rparr>) = (Inr True, wa) \<and>
      ensure_authenticated env wa = (Inr True, wb) \<and>
      list_solutions env wb = (Inr solutions, w1) \<and> solutions \<noteq> [] \<and> stdin w1 = line # rest \<longrightarrow>
      (fst (choose_solution env w), last (printed (snd (choose_solution env w)))) =
        (if lower (strip line) = ''q'' then (Inl (SystemExit 0), Goodbye)
         else case py_int (strip line) of
                Some i \<Rightarrow>
                  if 1 \<le> i \<and> i \<le> int (length solutions)
                  then (Inr (unique_name (solutions ! (nat i - 1))), Prompt SelectSolution)
                  else (Inl (SystemExit 1), InvalidSelection (length solutions))
              | None \<Rightarrow>
                  if strip line \<noteq> []
                  then (Inr (strip line), UsingDirectName (strip line))
                  else (Inl (SystemExit 1), NameRequired))) \<and>
   (\<forall>n. length (str_nat n) \<le> int_max_str_digits \<longrightarrow> py_int (str_nat n) = Some (int n))"
proof (intro conjI allI impI)
  fix w w1 rest
  assume "list_solutions env w = (Inr solutions, w1) \<and> solutions \<noteq> [] \<and> stdin w1 = line # rest"
  then have a: "list_solutions env w = (Inr solutions, w1)" and b: "solutions \<noteq> []"
    and c: "stdin w1 = line # rest"
    by simp_all
  from choose_another_of_line [OF a b c]
  show "(fst (choose_another env w), last (printed (snd (choose_another env w)))) =
        (if lower (strip line) = ''q'' then (Inr None, Goodbye)
         else case py_int (strip line) of
                Some i \<Rightarrow>
                  if 1 \<le> i \<and> i \<le> int (length solutions)
                  then (Inr (Some (unique_name (solutions ! (nat i - 1)))),
                        Prompt SelectSolution)
                  else (Inr None, InvalidSelection (length solutions))
              | None \<Rightarrow>
                  if strip line \<noteq> []
                  then (Inr (Some (strip line)), UsingDirectName (strip line))
                  else (Inr None, NameRequired))" .
next
  fix w wa wb w1 rest
  assume "check_pac_installed env (w\<lparr>printed := printed w @ [Banner]\<rparr>) = (Inr True, wa) \<and>
      ensure_authenticated env wa = (Inr True, wb) \<and>
      list_solutions env wb = (Inr solutions, w1) \<and> solutions \<noteq> [] \<and> stdin w1 = line # rest"
  then have a: "check_pac_installed env (w\<lparr>printed := printed w @ [Banner]\<rparr>) = (Inr True, wa)"
    and b: "ensure_authenticated env wa = (Inr True, wb)"
    and c: "list_solutions env wb = (Inr solutions, w1)" and d: "solutions \<noteq> []"
    and e: "stdin w1 = line # rest"
    by simp_all
  from choose_solution_of_line [OF a b c d e]
  show "(fst (choose_solution env w), last (printed (snd (choose_solution env w)))) =
        (if lower (strip line) = ''q'' then (Inl (SystemExit 0), Goodbye)
         else case py_int (strip line) of
                Some i \<Rightarrow>
                  if 1 \<le> i \<and> i \<le> int (length solutions)
                  then (Inr (unique_name (solutions ! (nat i - 1))), Prompt SelectSolution)
                  else (Inl (SystemExit 1), InvalidSelection (length solutions))
              | None \<Rightarrow>
                  if strip line \<noteq> []
                  then (Inr (strip line), UsingDirectName (strip line))
                  else (Inl (SystemExit 1), NameRequired))" .
next
  fix n
  assume "length (str_nat n) \<le> int_max_str_digits"
  then show "py_int (str_nat n) = Some (int n)" by (rule py_int_of_decimal)
qed

subsection \<open>Selections in the example environment\<close>

lemma example_inputs_stripped:
  "strip ''2'' = ''2''" "strip ''5'' = ''5''" "strip '' MyCustomName '' = ''MyCustomName''"
  "strip ''Q'' = ''Q''" "strip ''q'' = ''q''" "strip '' '' = []" "strip '' B '' = ''B''"
  "strip ''/tmp/A'' = ''/tmp/A''"
  by (simp_all add: string_defs)

lemma example_inputs_lower:
  "lower ''2'' = ''2''" "lower ''5'' = ''5''" "lower ''MyCustomName'' = ''mycustomname''"
  "lower ''Q'' = ''q''" "lower ''q'' = ''q''" "lower [] = []" "lower ''B'' = ''b''"
  "lower ''/tmp/A'' = ''/tmp/a''"
  by code_simp+

lemma example_inputs_int:
  "py_int ''2'' = Some 2" "py_int ''5'' = Some 5" "py_int ''MyCustomName'' = None"
  "py_int ''q'' = None" "py_int [] = None" "py_int '' '' = None" "py_int ''B'' = None"
  "py_int '' B '' = None" "py_int ''/tmp/A'' = None"
  by (simp_all add: py_int_defs string_defs)

lemma example_listed:
  "list_solutions example (example_world [line]) =
     (Inr [\<lparr>unique_name = ''A'', raw_line = ''A a 1''\<rparr>, \<lparr>unique_name = ''B'', raw_line = ''B b 2''\<rparr>],
      (example_world [line])
        \<lparr>printed := printed (example_world [line]) @
                      [FetchingSolutions, TableHeader, TableRow 1 ''A'' ''a'' ''1'',
                       TableRow 2 ''B'' ''b'' ''2'', TableFooter 2],
         invoked := invoked (example_world [line]) @ [[''pac'', ''solution'', ''list'']]\<rparr>)"
  by (rule example_list_solutions)

lemma example_signed_in:
  "check_pac_installed example
     ((example_world [''y'', line])\<lparr>printed := printed (example_world [''y'', line]) @ [Banner]\<rparr>) =
     (Inr True,
      (example_world [''y'', line])
        \<lparr>printed := [Banner, CheckingForPac, FoundPacVersion ''Version: 1.0''],
         invoked := [[''pac'', ''help'']]\<rparr>)"
  "ensure_authenticated example
     ((example_world [''y'', line])
        \<lparr>printed := [Banner, CheckingForPac, FoundPacVersion ''Version: 1.0''],
         invoked := [[''pac'', ''help'']]\<rparr>) =
     (Inr True,
      (example_world [''y'', line])
        \<lparr>stdin := [line],
         printed := [Banner, CheckingForPac, FoundPacVersion ''Version: 1.0'', CheckingAuth,
                     FoundProfile, CurrentProfiles example_profiles, Prompt UseExistingProfile],
         invoked := [[''pac'', ''help''], [''pac'', ''auth'', ''list'']]\<rparr>)"
  "list_solutions example
     ((example_world [''y'', line])
        \<lparr>stdin := [line],
         printed := [Banner, CheckingForPac, FoundPacVersion ''Version: 1.0'', CheckingAuth,
                     FoundProfile, CurrentProfiles example_profiles, Prompt UseExistingProfile],
         invoked := [[''pac'', ''help''], [''pac'', ''auth'', ''list'']]\<rparr>) =
     (Inr [\<lparr>unique_name = ''A'', raw_line = ''A a 1''\<rparr>, \<lparr>unique_name = ''B'', raw_line = ''B b 2''\<rparr>],
      (example_world [''y'', line])
        \<lparr>stdin := [line],
         printed := [Banner, CheckingForPac, FoundPacVersion ''Version: 1.0'', CheckingAuth,
                     FoundProfile, CurrentProfiles example_profiles, Prompt UseExistingProfile,
                     FetchingSolutions, TableHeader, TableRow 1 ''A'' ''a'' ''1'',
                     TableRow 2 ''B'' ''b'' ''2'', TableFooter 2],
         invoked := [[''pac'', ''help''], [''pac'', ''auth'', ''list''],
                     [''pac'', ''solution'', ''list'']]\<rparr>)"
  by (simp_all add: example_check_pac_installed example_ensure_authenticated
      example_list_solutions example_world_def)

lemma example_another_of_line:
  "(fst (choose_another example (example_world [line])),
    last (printed (snd (choose_another example (example_world [line]))))) =
     (if lower (strip line) = ''q'' then (Inr None, Goodbye)
      else case py_int (strip line) of
             Some i \<Rightarrow>
               if 1 \<le> i \<and> i \<le> int (length example_solutions)
               then (Inr (Some (unique_name
                       (example_solutions ! (nat i - 1)))),
                     Prompt SelectSolution)
               else (Inr None, InvalidSelection (length example_solutions))
           | None \<Rightarrow>
               if strip line \<noteq> []
               then (Inr (Some (strip line)), UsingDirectName (strip line))
               else (Inr None, NameRequired))"
proof -
  have st: "stdin ((example_world [line])
        \<lparr>printed := printed (example_world [line]) @
                      [FetchingSolutions, TableHeader, TableRow 1 ''A'' ''a'' ''1'',
                       TableRow 2 ''B'' ''b'' ''2'', TableFooter 2],
         invoked := invoked (example_world [line]) @ [[''pac'', ''solution'', ''list'']]\<rparr>) =
        line # []"
    by (simp add: example_world_def)
  show ?thesis
    unfolding example_solutions_def
    by (rule choose_another_of_line [OF example_listed _ st]) simp
qed

lemma example_main_of_line:
  "(fst (choose_solution example (example_world [''y'', line])),
    last (printed (snd (choose_solution example (example_world [''y'', line]))))) =
     (if lower (strip line) = ''q'' then (Inl (SystemExit 0), Goodbye)
      else case py_int (strip line) of
             Some i \<Rightarrow>
               if 1 \<le> i \<and> i \<le> int (length example_solutions)
               then (Inr (unique_name
                       (example_solutions ! (nat i - 1))),
                     Prompt SelectSolution)
               else (Inl (SystemExit 1), InvalidSelection (length example_solutions))
           | None \<Rightarrow>
               if strip line \<noteq> []
               then (Inr (strip line), UsingDirectName (strip line))
               else (Inl (SystemExit 1), NameRequired))"
proof -
  have st: "stdin ((example_world [''y'', line])
        \<lparr>stdin := [line],
         printed := [Banner, CheckingForPac, FoundPacVersion ''Version: 1.0'', CheckingAuth,
                     FoundProfile, CurrentProfiles example_profiles, Prompt UseExistingProfile,
                     FetchingSolutions, TableHeader, TableRow 1 ''A'' ''a'' ''1'',
                     TableRow 2 ''B'' ''b'' ''2'', TableFooter 2],
         invoked := [[''pac'', ''help''], [''pac'', ''auth'', ''list''],
                     [''pac'', ''solution'', ''list'']]\<rparr>) = line # []"
    by simp
  show ?thesis
    unfolding example_solutions_def
    by (rule choose_solution_of_line [OF example_signed_in _ st]) simp
qed

theorem selection_of_input_line_witness:
  "fst (choose_another example (example_world [''2''])) = Inr (Some ''B'') \<and>
   fst (choose_another example (example_world [''5''])) = Inr None \<and>
   last (printed (snd (choose_another example (example_world [''5''])))) = InvalidSelection 2 \<and>
   fst (choose_another example (example_world ['' MyCustomName ''])) =
     Inr (Some ''MyCustomName'') \<and>
   fst (choose_solution example (example_world [''y'', ''Q''])) = Inl (SystemExit 0) \<and>
   fst (choose_solution example (example_world [''y'', '' ''])) = Inl (SystemExit 1) \<and>
   py_int ''2'' = Some 2"
proof -
  let ?sols = "[\<lparr>unique_name = ''A'', raw_line = ''A a 1''\<rparr>,
                \<lparr>unique_name = ''B'', raw_line = ''B b 2''\<rparr>]"
  have ne: "?sols \<noteq> []" by simp
  have one: "stdin ((example_world [line])
        \<lparr>printed := printed (example_world [line]) @
                      [FetchingSolutions, TableHeader, TableRow 1 ''A'' ''a'' ''1'',
                       TableRow 2 ''B'' ''b'' ''2'', TableFooter 2],
         invoked := invoked (example_world [line]) @ [[''pac'', ''solution'', ''list'']]\<rparr>) =
        line # []" for line
    by (simp add: example_world_def)
  have two: "stdin ((example_world [''y'', line])
        \<lparr>stdin := [line],
         printed := [Banner, CheckingForPac, FoundPacVersion ''Version: 1.0'', CheckingAuth,
                     FoundProfile, CurrentProfiles example_profiles, Prompt UseExistingProfile,
                     FetchingSolutions, TableHeader, TableRow 1 ''A'' ''a'' ''1'',
                     TableRow 2 ''B'' ''b'' ''2'', TableFooter 2],
         invoked := [[''pac'', ''help''], [''pac'', ''auth'', ''list''],
                     [''pac'', ''solution'', ''list'']]\<rparr>) = line # []" for line
    by simp
  note another = selection_of_input_line
    [where env = example and solutions = ?sols, THEN conjunct1, rule_format,
     OF conjI [OF example_listed conjI [OF ne one]]]
  note first = selection_of_input_line
    [where env = example and solutions = ?sols, THEN conjunct2, THEN conjunct1, rule_format,
     OF conjI [OF example_signed_in(1) conjI [OF example_signed_in(2)
          conjI [OF example_signed_in(3) conjI [OF ne two]]]]]
  note numeral = selection_of_input_line
    [where env = example and solutions = ?sols and line = "[]", THEN conjunct2, THEN conjunct2,
     rule_format, of 2]
  have "str_nat 2 = ''2''"
    by (simp add: str_nat.simps digit_char_def)
  with numeral have "py_int ''2'' = Some 2"
    by (simp add: int_max_str_digits_def)
  with another [of "''2''"] another [of "''5''"] another [of "'' MyCustomName ''"]
    first [of "''Q''"] first [of "'' ''"]
  show ?thesis
    by (simp add: example_inputs_stripped example_inputs_lower example_inputs_int
      example_solutions_def)
qed

text \<open>
  The claim as first stated speaks of every raw input. It fails on three of them, none of
  which \<open>int\<close> reads and none of which is empty: \<open>q\<close> is not taken as a name but ends the
  program; a blank line is not taken as a name but fails; and a name with spaces around
  it resolves to the name without them, not to the input itself.
\<close>

theorem raw_selection_counterexample:
  "py_int ''q'' = None \<and> ''q'' \<noteq> [] \<and>
   fst (choose_solution example (example_world [''y'', ''q''])) = Inl (SystemExit 0) \<and>
   py_int '' '' = None \<and> '' '' \<noteq> [] \<and>
   fst (choose_another example (example_world ['' ''])) = Inr None \<and>
   py_int '' B '' = None \<and> '' B '' \<noteq> ''B'' \<and>
   fst (choose_another example (example_world ['' B ''])) = Inr (Some ''B'')"
  using example_main_of_line [of "''q''"] example_another_of_line [of "'' ''"]
    example_another_of_line [of "'' B ''"]
  by (simp add: example_inputs_stripped example_inputs_lower example_inputs_int
      example_solutions_def)

section \<open>A solution name that is an absolute path\<close>

lemma exporting_all_check_pac_installed:
  "check_pac_installed exporting_all w =
     (Inr True, w\<lparr>printed := printed w @ [CheckingForPac, FoundPacVersion ''Version: 1.0''],
                  invoked := invoked w @ [[''pac'', ''help'']]\<rparr>)"
  by (simp add: check_pac_installed_def io_defs exporting_all_def example_env_def example_pac_def
      string_defs Let_def)

lemma exporting_all_ensure_authenticated:
  assumes "stdin w = ''y'' # rest"
  shows "ensure_authenticated exporting_all w =
     (Inr True, w\<lparr>stdin := rest,
                  printed := printed w @ [CheckingAuth, FoundProfile,
                                          CurrentProfiles example_profiles,
                                          Prompt UseExistingProfile],
                  invoked := invoked w @ [[''pac'', ''auth'', ''list'']]\<rparr>)"
  using assms example_has_active_profile
  by (simp add: ensure_authenticated_def io_defs exporting_all_def example_env_def
      example_pac_def Let_def example_answers)

lemma exporting_all_list_solutions:
  "list_solutions exporting_all w =
     (Inr example_solutions,
      w\<lparr>printed := printed w @ [FetchingSolutions, TableHeader, TableRow 1 ''A'' ''a'' ''1'',
                                 TableRow 2 ''B'' ''b'' ''2'', TableFooter 2],
        invoked := invoked w @ [[''pac'', ''solution'', ''list'']]\<rparr>)"
  by (simp add: list_solutions_def io_defs exporting_all_def example_env_def example_pac_def
      Let_def example_listing_parsed example_display example_solutions_def)

lemma direct_name_resolved:
  "resolve_selection example_solutions ''/tmp/A'' = Direct ''/tmp/A''"
  by (simp add: resolve_selection_def example_inputs_int)

lemma exporting_all_choose_solution:
  "choose_solution exporting_all (tmp_world [''y'', ''/tmp/A'']) =
     (Inr ''/tmp/A'',
      \<lparr>stdin = [],
       printed = [Banner, CheckingForPac, FoundPacVersion ''Version: 1.0'', CheckingAuth,
                  FoundProfile, CurrentProfiles example_profiles, Prompt UseExistingProfile,
                  FetchingSolutions, TableHeader, TableRow 1 ''A'' ''a'' ''1'',
                  TableRow 2 ''B'' ''b'' ''2'', TableFooter 2, SelectionRule,
                  Prompt SelectSolution, UsingDirectName ''/tmp/A''],
       fs = tmp_fs,
       invoked = [[''pac'', ''help''], [''pac'', ''auth'', ''list''],
                  [''pac'', ''solution'', ''list'']],
       clock_reads = 0\<rparr>)"
  by (simp add: choose_solution_def seq_def print_def return_def raise_def input_line_def
      exporting_all_check_pac_installed exporting_all_ensure_authenticated
      exporting_all_list_solutions direct_name_resolved [unfolded example_solutions_def]
      example_inputs_stripped
      example_inputs_lower tmp_world_def example_world_def example_solutions_def Let_def)

lemma tmp_mkdir:
  "mkdir tmp_fs (Path ''./exports'') True True =
     (Inr (), tmp_fs\<lparr>nodes := (nodes tmp_fs)([''home'', ''exports''] \<mapsto> Dir)\<rparr>)"
  by (simp add: mkdir.simps path_defs tmp_fs_def Let_def)

lemma absolute_target:
  assumes "clock_reads w = 0"
  shows "export_target exporting_all ''/tmp/A'' ''./exports'' w =
           \<lparr>anchor = ''/'', names = [''tmp'', ''A_20240309_140500.zip'']\<rparr>"
  using assms
  by (simp add: export_target_def export_filename_def example_strftime exporting_all_def
      example_env_def Path_def joinpath_def Let_def)

lemma absolute_target_command:
  "''pac'' # export_command ''/tmp/A'' \<lparr>anchor = ''/'', names = [''tmp'', ''A_20240309_140500.zip'']\<rparr> =
     [''pac'', ''solution'', ''export'', ''--name'', ''/tmp/A'', ''--path'',
      ''/tmp/A_20240309_140500.zip'', ''--managed'', ''false'', ''--overwrite'']"
  by (simp add: export_command_def str_path_def)

lemma exporting_all_pac_export:
  "pac exporting_all h f
     [''pac'', ''solution'', ''export'', ''--name'', ''/tmp/A'', ''--path'',
      ''/tmp/A_20240309_140500.zip'', ''--managed'', ''false'', ''--overwrite''] =
   Completed \<lparr>returncode = 0, stdout = [], stderr = []\<rparr>
     (write_file f ''/tmp/A_20240309_140500.zip'' 2048)"
  by (simp add: exporting_all_def example_env_def example_pac_def)

lemma absolute_file_written:
  "write_file (tmp_fs\<lparr>nodes := (nodes tmp_fs)([''home'', ''exports''] \<mapsto> Dir)\<rparr>)
     ''/tmp/A_20240309_140500.zip'' 2048 =
   \<lparr>nodes = [[] \<mapsto> Dir, [''home''] \<mapsto> Dir, [''tmp''] \<mapsto> Dir, [''home'', ''exports''] \<mapsto> Dir,
             [''tmp'', ''A_20240309_140500.zip''] \<mapsto> File 2048],
    cwd = [''home'']\<rparr>"
  by (simp add: write_file_def tmp_fs_def path_defs)

lemma absolute_file_exists:
  "path_exists
     \<lparr>nodes = [[] \<mapsto> Dir, [''home''] \<mapsto> Dir, [''tmp''] \<mapsto> Dir, [''home'', ''exports''] \<mapsto> Dir,
               [''tmp'', ''A_20240309_140500.zip''] \<mapsto> File 2048],
      cwd = [''home'']\<rparr>
     \<lparr>anchor = ''/'', names = [''tmp'', ''A_20240309_140500.zip'']\<rparr>"
  by (simp add: path_defs)

text \<open>
  Claim C6. The claim places the export at \<open>output_dir/{name}_{timestamp}.zip\<close>, and the
  docstring of \<open>export_solution\<close> says that the solution is exported to the given
  directory. The name comes from the selection prompt, where any text that \<open>int\<close> does
  not read is taken as the name. For the name \<open>/tmp/A\<close> the file name
  \<open>/tmp/A_20240309_140500.zip\<close> is an absolute path, and \<open>output_path / filename\<close> is then
  that path, not a path below \<open>output_path\<close>: in the run below \<open>main\<close> takes the name from
  the prompt, \<open>export_solution\<close> makes the directory \<open>exports\<close>, passes
  \<open>/tmp/A_20240309_140500.zip\<close> to the tool as \<open>--path\<close>, and returns \<open>True\<close> with the file
  in \<open>/tmp\<close> and the output directory empty.
\<close>

theorem absolute_name_leaves_output_dir:
  "fst (choose_solution exporting_all (tmp_world [''y'', ''/tmp/A''])) = Inr ''/tmp/A'' \<and>
   Path ''./exports'' = \<lparr>anchor = [], names = [''exports'']\<rparr> \<and>
   export_target exporting_all ''/tmp/A'' ''./exports''
     (snd (choose_solution exporting_all (tmp_world [''y'', ''/tmp/A'']))) =
     \<lparr>anchor = ''/'', names = [''tmp'', ''A_20240309_140500.zip'']\<rparr> \<and>
   fst (export_solution exporting_all ''/tmp/A'' ''./exports''
     (snd (choose_solution exporting_all (tmp_world [''y'', ''/tmp/A''])))) = Inr True \<and>
   last (invoked (snd (export_solution exporting_all ''/tmp/A'' ''./exports''
     (snd (choose_solution exporting_all (tmp_world [''y'', ''/tmp/A'']))))))
     = [''pac'', ''solution'', ''export'', ''--name'', ''/tmp/A'', ''--path'',
        ''/tmp/A_20240309_140500.zip'', ''--managed'', ''false'', ''--overwrite''] \<and>
   fs (snd (export_solution exporting_all ''/tmp/A'' ''./exports''
     (snd (choose_solution exporting_all (tmp_world [''y'', ''/tmp/A'']))))) =
     \<lparr>nodes = [[] \<mapsto> Dir, [''home''] \<mapsto> Dir, [''tmp''] \<mapsto> Dir, [''home'', ''exports''] \<mapsto> Dir,
               [''tmp'', ''A_20240309_140500.zip''] \<mapsto> File 2048],
      cwd = [''home'']\<rparr>"
proof -
  let ?w0 = "tmp_world [''y'', ''/tmp/A'']"
  let ?fs1 = "tmp_fs\<lparr>nodes := (nodes tmp_fs)([''home'', ''exports''] \<mapsto> Dir)\<rparr>"
  define w1 where "w1 = snd (choose_solution exporting_all ?w0)"
  have w1: "fs w1 = tmp_fs" "clock_reads w1 = 0"
    and chosen: "fst (choose_solution exporting_all ?w0) = Inr ''/tmp/A''"
    by (simp_all add: w1_def exporting_all_choose_solution)
  have t: "export_target exporting_all ''/tmp/A'' ''./exports'' w1 =
             \<lparr>anchor = ''/'', names = [''tmp'', ''A_20240309_140500.zip'']\<rparr>"
    by (rule absolute_target [OF w1(2)])
  have m: "mkdir (fs w1) (Path ''./exports'') True True = (Inr (), ?fs1)"
    by (simp add: w1(1) tmp_mkdir)
  have p: "pac exporting_all (invoked w1) ?fs1
             (''pac'' # export_command ''/tmp/A''
                (export_target exporting_all ''/tmp/A'' ''./exports'' w1)) =
           Completed \<lparr>returncode = 0, stdout = [], stderr = []\<rparr>
             \<lparr>nodes = [[] \<mapsto> Dir, [''home''] \<mapsto> Dir, [''tmp''] \<mapsto> Dir,
                       [''home'', ''exports''] \<mapsto> Dir,
                       [''tmp'', ''A_20240309_140500.zip''] \<mapsto> File 2048],
              cwd = [''home'']\<rparr>"
    unfolding t absolute_target_command exporting_all_pac_export absolute_file_written ..
  have dir: "Path ''./exports'' = \<lparr>anchor = [], names = [''exports'']\<rparr>"
    by (simp add: path_defs)
  from export_solution_completed(1) [OF m p]
  have ok: "fst (export_solution exporting_all ''/tmp/A'' ''./exports'' w1) = Inr True"
    unfolding t by (simp add: absolute_file_exists)
  from export_solution_completed(5) [OF m p]
  have cmd: "last (invoked (snd (export_solution exporting_all ''/tmp/A'' ''./exports'' w1))) =
               [''pac'', ''solution'', ''export'', ''--name'', ''/tmp/A'', ''--path'',
                ''/tmp/A_20240309_140500.zip'', ''--managed'', ''false'', ''--overwrite'']"
    unfolding t absolute_target_command by simp
  note files = export_solution_completed(4) [OF m p]
  from chosen dir t ok cmd files show ?thesis
    unfolding w1_def by blast
qed

end
